theory Spec2Isabelle
  imports Complex_Main "HOL-Library.AList"
begin

section \<open>Outcomes of a Go call\<close>

text \<open>
  A Go call of the workflow memory either returns normally, returns a non-nil
  \<^verbatim>\<open>error\<close> (built with \<^verbatim>\<open>fmt.Errorf\<close> or handed up from a library), or panics
  at run time. The run-time panics that \<^verbatim>\<open>pkg/memory/memory.go\<close> can raise are an index
  out of range, a slice expression out of bounds, a failed type assertion
  \<^verbatim>\<open>x.(*T)\<close>, a method call on a nil interface and \<^verbatim>\<open>make\<close> with a negative length.
\<close>

datatype panic =
    IndexOutOfRange
  | SliceBoundsOutOfRange
  | InterfaceConversion
  | NilDereference
  | MakeSliceLenOutOfRange

datatype 'a outcome = Ok 'a | Error string | Panic panic

section \<open>The dynamic value model (package data)\<close>

text \<open>
  \<^verbatim>\<open>data.Value\<close> is an interface. \<open>GoNil\<close> is the nil interface value (what a Go map
  yields for a missing key); the other constructors are the variants the sources
  name: \<^verbatim>\<open>*data.Null\<close>, \<^verbatim>\<open>*data.Boolean\<close>, \<^verbatim>\<open>*data.Array\<close> with its \<^verbatim>\<open>Values\<close> and
  \<^verbatim>\<open>*data.Map\<close> with its \<^verbatim>\<open>Fields\<close>, and the scalar variants of the specification.
  A number is a float64 payload that is stored and handed on, never computed with.
  \<^verbatim>\<open>Fields\<close> is a Go map: the association list is read with \<open>map_of\<close> and written
  with \<open>AList.update\<close>, so a key addresses one entry. \<^verbatim>\<open>Fields\<close> is never the nil map
  (\<^verbatim>\<open>data.NewMap\<close> replaces it by an empty one). Values form a tree: the model has no
  sharing of one \<^verbatim>\<open>*data.Map\<close> between two places.
\<close>

datatype Value =
    GoNil
  | Null
  | Boolean bool
  | Number real
  | String string
  | Array "Value list"
  | Map "(string \<times> Value) list"

text \<open>\<^verbatim>\<open>structpb.Value\<close>: the JSON-shaped envelope.\<close>

datatype structpb =
    NullValue
  | BoolValue bool
  | NumberValue real
  | StringValue string
  | ListValue "structpb list"
  | StructValue "(string \<times> structpb) list"

text \<open>
  \<^verbatim>\<open>data.NewMap\<close> (unnamed/part\_000): a nil argument becomes the empty map.
\<close>

definition NewMap :: "(string \<times> Value) list option \<Rightarrow> Value" where
  "NewMap m = (case m of None \<Rightarrow> Map [] | Some fields \<Rightarrow> Map fields)"

text \<open>
  Modelled from the spec: \<^verbatim>\<open>data.NewBoolean\<close> and \<^verbatim>\<open>(*data.Boolean).GetBoolean\<close> are not
  in the sources; the specification's \<open>Boolean\<close> variant carries one truth value.
\<close>

definition NewBoolean :: "bool \<Rightarrow> Value" where
  "NewBoolean b = Boolean b"

text \<open>
  \<^verbatim>\<open>ToStructValue\<close>, the structural projection. The sources hold two bodies of
  \<^verbatim>\<open>Map.ToStructValue\<close>. The first (value receiver, unnamed/part\_000 lines 343-358)
  skips a field whose value is nil or \<^verbatim>\<open>*Null\<close>. The loop \<^verbatim>\<open>for k, v := range m.Fields\<close>
  is \<open>Map_range\<close>; Go visits the keys in no fixed order, the model in list order, which
  only decides which failure is reported when several fields fail.

  Modelled from the spec: the projections of the scalar variants and of \<^verbatim>\<open>Array\<close> are
  not in the sources. After section 4.1 of the specification \<open>Null\<close> becomes the null
  literal, a scalar its scalar form and an \<open>Array\<close> the ordered list of its elements'
  projections (\<open>Array_range\<close>). A method call on the nil interface panics.
\<close>

function (sequential) ToStructValue :: "Value \<Rightarrow> structpb outcome"
  and Array_range :: "Value list \<Rightarrow> structpb list outcome"
  and Map_range :: "(string \<times> Value) list \<Rightarrow> (string \<times> structpb) list outcome"
where
  "ToStructValue GoNil = Panic NilDereference"
| "ToStructValue Null = Ok NullValue"
| "ToStructValue (Boolean b) = Ok (BoolValue b)"
| "ToStructValue (Number n) = Ok (NumberValue n)"
| "ToStructValue (String s) = Ok (StringValue s)"
| "ToStructValue (Array vs) =
     (case Array_range vs of
        Ok ss \<Rightarrow> Ok (ListValue ss)
      | Error e \<Rightarrow> Error e
      | Panic p \<Rightarrow> Panic p)"
| "ToStructValue (Map fields) =
     (case Map_range fields of
        Ok mp \<Rightarrow> Ok (StructValue mp)
      | Error e \<Rightarrow> Error e
      | Panic p \<Rightarrow> Panic p)"
| "Array_range [] = Ok []"
| "Array_range (v # vs) =
     (case ToStructValue v of
        Ok s \<Rightarrow>
          (case Array_range vs of
             Ok ss \<Rightarrow> Ok (s # ss)
           | Error e \<Rightarrow> Error e
           | Panic p \<Rightarrow> Panic p)
      | Error e \<Rightarrow> Error e
      | Panic p \<Rightarrow> Panic p)"
| "Map_range [] = Ok []"
| "Map_range ((k, v) # rest) =
     (if v \<noteq> GoNil then
        (if v = Null then Map_range rest
         else
           (case ToStructValue v of
              Ok s \<Rightarrow>
                (case Map_range rest of
                   Ok mp \<Rightarrow> Ok ((k, s) # mp)
                 | Error e \<Rightarrow> Error e
                 | Panic p \<Rightarrow> Panic p)
            | Error e \<Rightarrow> Error e
            | Panic p \<Rightarrow> Panic p))
      else Map_range rest)"
  by pat_completeness auto
termination
  by (relation "measure (\<lambda>x. case x of
        Inl v \<Rightarrow> size v
      | Inr (Inl vs) \<Rightarrow> size_list size vs
      | Inr (Inr kvs) \<Rightarrow> size_list (size_prod (\<lambda>_. 0) size) kvs)") auto

text \<open>
  The second body of \<^verbatim>\<open>Map.ToStructValue\<close> (pointer receiver, unnamed/part\_000 lines
  380-394) keeps every key: a nil field becomes the null literal, any other field
  its own projection. The scalar and \<open>Array\<close> cases are modelled from the spec as above.
\<close>

function (sequential) ToStructValue_ptr :: "Value \<Rightarrow> structpb outcome"
  and Array_range_ptr :: "Value list \<Rightarrow> structpb list outcome"
  and Map_range_ptr :: "(string \<times> Value) list \<Rightarrow> (string \<times> structpb) list outcome"
where
  "ToStructValue_ptr GoNil = Panic NilDereference"
| "ToStructValue_ptr Null = Ok NullValue"
| "ToStructValue_ptr (Boolean b) = Ok (BoolValue b)"
| "ToStructValue_ptr (Number n) = Ok (NumberValue n)"
| "ToStructValue_ptr (String s) = Ok (StringValue s)"
| "ToStructValue_ptr (Array vs) =
     (case Array_range_ptr vs of
        Ok ss \<Rightarrow> Ok (ListValue ss)
      | Error e \<Rightarrow> Error e
      | Panic p \<Rightarrow> Panic p)"
| "ToStructValue_ptr (Map fields) =
     (case Map_range_ptr fields of
        Ok mp \<Rightarrow> Ok (StructValue mp)
      | Error e \<Rightarrow> Error e
      | Panic p \<Rightarrow> Panic p)"
| "Array_range_ptr [] = Ok []"
| "Array_range_ptr (v # vs) =
     (case ToStructValue_ptr v of
        Ok s \<Rightarrow>
          (case Array_range_ptr vs of
             Ok ss \<Rightarrow> Ok (s # ss)
           | Error e \<Rightarrow> Error e
           | Panic p \<Rightarrow> Panic p)
      | Error e \<Rightarrow> Error e
      | Panic p \<Rightarrow> Panic p)"
| "Map_range_ptr [] = Ok []"
| "Map_range_ptr ((k, v) # rest) =
     (if v = GoNil then
        (case Map_range_ptr rest of
           Ok mp \<Rightarrow> Ok ((k, NullValue) # mp)
         | Error e \<Rightarrow> Error e
         | Panic p \<Rightarrow> Panic p)
      else
        (case ToStructValue_ptr v of
           Ok s \<Rightarrow>
             (case Map_range_ptr rest of
                Ok mp \<Rightarrow> Ok ((k, s) # mp)
              | Error e \<Rightarrow> Error e
              | Panic p \<Rightarrow> Panic p)
         | Error e \<Rightarrow> Error e
         | Panic p \<Rightarrow> Panic p))"
  by pat_completeness auto
termination
  by (relation "measure (\<lambda>x. case x of
        Inl v \<Rightarrow> size v
      | Inr (Inl vs) \<Rightarrow> size_list size vs
      | Inr (Inr kvs) \<Rightarrow> size_list (size_prod (\<lambda>_. 0) size) kvs)") auto

section \<open>Library functions used by the path resolver\<close>

text \<open>
  \<^verbatim>\<open>strings.FieldsFunc(s, f)\<close>: the maximal runs of characters that do not satisfy
  \<open>f\<close>; empty runs are dropped. The separators of \<^verbatim>\<open>Get\<close> are ASCII, so the runes
  of the source are the bytes of the model. \<open>cur\<close> is the field being read.
\<close>

fun FieldsFunc_from :: "(char \<Rightarrow> bool) \<Rightarrow> string \<Rightarrow> string \<Rightarrow> string list" where
  "FieldsFunc_from f cur [] = (if cur = [] then [] else [cur])"
| "FieldsFunc_from f cur (c # cs) =
     (if f c then (if cur = [] then FieldsFunc_from f [] cs else cur # FieldsFunc_from f [] cs)
      else FieldsFunc_from f (cur @ [c]) cs)"

definition FieldsFunc :: "string \<Rightarrow> (char \<Rightarrow> bool) \<Rightarrow> string list" where
  "FieldsFunc s f = FieldsFunc_from f [] s"

text \<open>\<^verbatim>\<open>strings.HasSuffix\<close>.\<close>

definition HasSuffix :: "string \<Rightarrow> string \<Rightarrow> bool" where
  "HasSuffix s suffix =
     (length suffix \<le> length s \<and> drop (length s - length suffix) s = suffix)"

text \<open>
  \<^verbatim>\<open>strings.Split(s, sep)\<close> for a non-empty separator: the pieces between the
  occurrences of \<open>sep\<close>, found from the left without overlap. (\<^verbatim>\<open>Get\<close> calls it with
  the separator \<^verbatim>\<open>][\<close> only; for the empty separator Go splits after each UTF-8
  sequence, which the model writes as one piece per byte.)
\<close>

function Split_from :: "string \<Rightarrow> string \<Rightarrow> string \<Rightarrow> string list" where
  "Split_from sep cur s =
     (if s = [] then [cur]
      else if sep \<noteq> [] \<and> take (length sep) s = sep
        then cur # Split_from sep [] (drop (length sep) s)
      else Split_from sep (cur @ [hd s]) (tl s))"
  by pat_completeness auto
termination
  by (relation "measure (\<lambda>(sep, cur, s). length s)") auto

declare Split_from.simps [simp del]

definition Split :: "string \<Rightarrow> string \<Rightarrow> string list" where
  "Split s sep = (if sep = [] then map (\<lambda>c. [c]) s else Split_from sep [] s)"

text \<open>
  \<^verbatim>\<open>strconv.Atoi\<close> on a 64-bit platform: an optional sign, then one or more decimal
  digits, and a value that fits \<^verbatim>\<open>int\<close>; anything else is an error (\<open>None\<close>).
\<close>

definition is_digit :: "char \<Rightarrow> bool" where
  "is_digit c = (48 \<le> (of_char c :: nat) \<and> (of_char c :: nat) \<le> 57)"

definition digit_val :: "char \<Rightarrow> int" where
  "digit_val c = int (of_char c) - 48"

definition Atoi :: "string \<Rightarrow> int option" where
  "Atoi s =
     (let neg = (s \<noteq> [] \<and> hd s = CHR ''-'');
          ds = (if s \<noteq> [] \<and> (hd s = CHR ''-'' \<or> hd s = CHR ''+'') then tl s else s);
          n = foldl (\<lambda>a c. a * 10 + digit_val c) 0 ds;
          v = (if neg then - n else n)
      in if ds \<noteq> [] \<and> list_all is_digit ds \<and> - (2 ^ 63) \<le> v \<and> v < 2 ^ 63
         then Some v else None)"

section \<open>The workflow memory (pkg/memory/memory.go)\<close>

text \<open>
  The data-type and status tags are Go string types; their constants are the
  strings below.
\<close>

type_synonym PipelineDataType = string
type_synonym ComponentStatusType = string
type_synonym ComponentDataType = string
type_synonym EventType = string

abbreviation PipelineVariable :: PipelineDataType where "PipelineVariable \<equiv> ''variable''"
abbreviation PipelineSecret :: PipelineDataType where "PipelineSecret \<equiv> ''secret''"
abbreviation PipelineOutput :: PipelineDataType where "PipelineOutput \<equiv> ''output''"
abbreviation PipelineOutputTemplate :: PipelineDataType where "PipelineOutputTemplate \<equiv> ''_output''"

abbreviation ComponentStatusStarted :: ComponentStatusType where "ComponentStatusStarted \<equiv> ''started''"
abbreviation ComponentStatusSkipped :: ComponentStatusType where "ComponentStatusSkipped \<equiv> ''skipped''"
abbreviation ComponentStatusCompleted :: ComponentStatusType where "ComponentStatusCompleted \<equiv> ''completed''"

abbreviation ComponentDataInput :: ComponentDataType where "ComponentDataInput \<equiv> ''input''"
abbreviation ComponentDataOutput :: ComponentDataType where "ComponentDataOutput \<equiv> ''output''"
abbreviation ComponentDataElement :: ComponentDataType where "ComponentDataElement \<equiv> ''element''"
abbreviation ComponentDataSetup :: ComponentDataType where "ComponentDataSetup \<equiv> ''setup''"

abbreviation PipelineStarted :: EventType where "PipelineStarted \<equiv> ''pipeline_started''"
abbreviation PipelineOutputUpdated :: EventType where "PipelineOutputUpdated \<equiv> ''pipeline_output_updated''"
abbreviation PipelineCompleted :: EventType where "PipelineCompleted \<equiv> ''pipeline_completed''"
abbreviation PipelineClosed :: EventType where "PipelineClosed \<equiv> ''pipeline_closed''"
abbreviation ComponentStatusUpdated :: EventType where "ComponentStatusUpdated \<equiv> ''component_status_updated''"
abbreviation ComponentInputUpdated :: EventType where "ComponentInputUpdated \<equiv> ''component_input_updated''"
abbreviation ComponentOutputUpdated :: EventType where "ComponentOutputUpdated \<equiv> ''component_output_updated''"

text \<open>
  Modelled from the spec: \<^verbatim>\<open>constant.SegInput\<close> and \<^verbatim>\<open>constant.SegOutput\<close> (package
  constant) are not in the sources; after section 3 of the specification the
  skeleton of a component has the keys \<^verbatim>\<open>input\<close> and \<^verbatim>\<open>output\<close>.
\<close>

definition SegInput :: string where
  "SegInput = ''input''"

definition SegOutput :: string where
  "SegOutput = ''output''"

text \<open>
  \<^verbatim>\<open>workflowMemory\<close>. The recipe is opaque (a pointer that is stored and returned);
  the mutex serialises the operations, each of which is one step of the model; the
  bus and key-value client is the state \<open>redis\<close> below.
\<close>

typedecl Recipe

record workflowMemory =
  ID :: string
  Data :: "Value list"
  Recipe :: "Recipe option"
  streaming :: bool

text \<open>
  Events. \<^verbatim>\<open>time.Now()\<close> is read from the environment. The payload structs list their
  fields in the order of the source: UpdateTime, (ComponentID,) BatchIndex and the
  value. A dynamic object is a \<^verbatim>\<open>map[string]any\<close> (\<open>None\<close>: the nil map); \<open>NoData\<close> is
  the nil \<^verbatim>\<open>Data\<close> of the zero \<^verbatim>\<open>Event{}\<close>.
\<close>

type_synonym time = nat
type_synonym dynamic_object = "(string \<times> structpb) list option"

datatype EventData =
    NoData
  | ComponentStatusEventData time string int "(ComponentStatusType \<times> bool) list"
  | ComponentInputEventData time string int dynamic_object
  | ComponentOutputEventData time string int dynamic_object
  | PipelineStartedEventData time int dynamic_object
  | PipelineCompletedEventData time int dynamic_object

datatype Event = Event EventType EventData

fun EventTag :: "Event \<Rightarrow> EventType" where
  "EventTag (Event t d) = t"

fun BatchIndex :: "Event \<Rightarrow> int option" where
  "BatchIndex (Event t NoData) = None"
| "BatchIndex (Event t (ComponentStatusEventData u c i s)) = Some i"
| "BatchIndex (Event t (ComponentInputEventData u c i x)) = Some i"
| "BatchIndex (Event t (ComponentOutputEventData u c i x)) = Some i"
| "BatchIndex (Event t (PipelineStartedEventData u i x)) = Some i"
| "BatchIndex (Event t (PipelineCompletedEventData u i x)) = Some i"

text \<open>
  The environment of one call: the clock, and whether each library or network call
  the sources make returns an error (\<open>Some\<close> its message). \<^verbatim>\<open>protojson.Marshal\<close>, the
  \<^verbatim>\<open>gob\<close> encoding of an event and the Redis commands are outside the repository; the
  model keeps their results and leaves their failures to the environment.
\<close>

record env =
  now :: time
  marshal_err :: "string option"
  encode_err :: "string option"
  publish_err :: "string option"
  set_err :: "string option"
  get_err :: "string option"

text \<open>
  The exported fields of \<^verbatim>\<open>workflowMemory\<close>, which is what a snapshot holds, and the
  bytes stored under a Redis key: the encoding of a snapshot, or bytes that are not one.
\<close>

record snapshot =
  snap_ID :: string
  snap_Data :: "Value list"
  snap_Recipe :: "Recipe option"

datatype blob = Encoded snapshot | Malformed

text \<open>
  Redis: the key-value store and, per publish, the channel and the event sent. The
  one-hour expiry of a key is real time and not part of the model.
\<close>

record redis =
  kv :: "string \<rightharpoonup> blob"
  published :: "(string \<times> Event) list"

text \<open>
  \<^verbatim>\<open>protojson.Marshal\<close>: the JSON bytes are modelled by the document they spell.
\<close>

definition protojson_Marshal :: "env \<Rightarrow> structpb \<Rightarrow> structpb outcome" where
  "protojson_Marshal e s = (case marshal_err e of Some m \<Rightarrow> Error m | None \<Rightarrow> Ok s)"

text \<open>
  \<^verbatim>\<open>json.Unmarshal(b, &data)\<close> into a \<^verbatim>\<open>map[string]any\<close>: a JSON object fills the map,
  the JSON null leaves it nil, every other document is a type error (whose message
  names the kind of the document; the model keeps one message).
\<close>

definition json_Unmarshal :: "structpb \<Rightarrow> dynamic_object outcome" where
  "json_Unmarshal b =
     (case b of
        StructValue fs \<Rightarrow> Ok (Some fs)
      | NullValue \<Rightarrow> Ok None
      | _ \<Rightarrow> Error ''json: cannot unmarshal into Go value of type map[string]interface {}'')"

text \<open>
  The three lines under \<^verbatim>\<open>TODO: simplify struct conversion\<close>: project the value, print
  it as JSON and read it back as a dynamic object. \<open>tsv\<close> is the \<^verbatim>\<open>ToStructValue\<close>
  method in force (\<open>ToStructValue\<close> or \<open>ToStructValue_ptr\<close>).
\<close>

definition struct_conversion ::
  "(Value \<Rightarrow> structpb outcome) \<Rightarrow> env \<Rightarrow> Value \<Rightarrow> dynamic_object outcome" where
  "struct_conversion tsv e v =
     (if v = GoNil then Panic NilDereference
      else
        (case tsv v of
           Ok s \<Rightarrow>
             (case protojson_Marshal e s of
                Ok b \<Rightarrow> json_Unmarshal b
              | Error m \<Rightarrow> Error m
              | Panic p \<Rightarrow> Panic p)
         | Error m \<Rightarrow> Error m
         | Panic p \<Rightarrow> Panic p))"

text \<open>
  The \<^verbatim>\<open>gob\<close> encoding of an event: the bytes are modelled by the event they encode;
  whether the encoder accepts the event (the types inside its payload have to be
  registered) is left to the environment. \<^verbatim>\<open>Publish\<close> appends to what the bus has seen.
\<close>

definition gob_Encode :: "env \<Rightarrow> Event \<Rightarrow> Event outcome" where
  "gob_Encode e event = (case encode_err e of Some m \<Rightarrow> Error m | None \<Rightarrow> Ok event)"

definition Publish :: "env \<Rightarrow> redis \<Rightarrow> string \<Rightarrow> Event \<Rightarrow> unit outcome \<times> redis" where
  "Publish e rc channel msg =
     (case publish_err e of
        Some m \<Rightarrow> (Error m, rc)
      | None \<Rightarrow> (Ok (), rc\<lparr>published := published rc @ [(channel, msg)]\<rparr>))"

text \<open>
  The tail shared by the streaming branches and \<^verbatim>\<open>SendWorkflowStatusEvent\<close>: encode
  the event, publish the bytes on the channel.
\<close>

definition encode_and_publish :: "env \<Rightarrow> redis \<Rightarrow> string \<Rightarrow> Event \<Rightarrow> unit outcome \<times> redis" where
  "encode_and_publish e rc channel event =
     (case gob_Encode e event of
        Ok buf \<Rightarrow> Publish e rc channel buf
      | Error m \<Rightarrow> (Error m, rc)
      | Panic p \<Rightarrow> (Panic p, rc))"

text \<open>
  \<^verbatim>\<open>wfm.Data[batchIdx]\<close> panics outside \<open>0 \<le> batchIdx < len(wfm.Data)\<close> (\<open>in_range\<close>),
  and \<^verbatim>\<open>x.(*data.Map)\<close> panics unless \<open>x\<close> holds a map. An assignment to a field of the
  root map at \<open>batchIdx\<close> gives the root its new fields (\<open>set_root\<close>); reading a Go map
  yields the zero value, nil, for an absent key (\<open>lookup_field\<close>).
\<close>

definition in_range :: "workflowMemory \<Rightarrow> int \<Rightarrow> bool" where
  "in_range wfm batchIdx = (0 \<le> batchIdx \<and> batchIdx < int (length (Data wfm)))"

definition set_root :: "workflowMemory \<Rightarrow> int \<Rightarrow> (string \<times> Value) list \<Rightarrow> workflowMemory" where
  "set_root wfm batchIdx fs = wfm\<lparr>Data := (Data wfm)[nat batchIdx := Map fs]\<rparr>"

definition lookup_field :: "(string \<times> Value) list \<Rightarrow> string \<Rightarrow> Value" where
  "lookup_field fs key = (case map_of fs key of None \<Rightarrow> GoNil | Some v \<Rightarrow> v)"

definition EnableStreaming :: "workflowMemory \<Rightarrow> workflowMemory" where
  "EnableStreaming wfm = wfm\<lparr>streaming := True\<rparr>"

definition InitComponent :: "workflowMemory \<Rightarrow> int \<Rightarrow> string \<Rightarrow> unit outcome \<times> workflowMemory" where
  "InitComponent wfm batchIdx componentID =
     (let compMemory = NewMap (Some
            [(SegInput, NewMap None),
             (SegOutput, NewMap None),
             (''status'', NewMap (Some
                [(''started'', NewBoolean False),
                 (''skipped'', NewBoolean False),
                 (''completed'', NewBoolean False)])),
             (''setup'', NewMap None)])
      in if in_range wfm batchIdx then
           (case Data wfm ! nat batchIdx of
              Map rootFields \<Rightarrow> (Ok (), set_root wfm batchIdx (AList.update componentID compMemory rootFields))
            | _ \<Rightarrow> (Panic InterfaceConversion, wfm))
         else (Panic IndexOutOfRange, wfm))"

definition SetComponentData ::
  "(Value \<Rightarrow> structpb outcome) \<Rightarrow> env \<Rightarrow> workflowMemory \<Rightarrow> redis \<Rightarrow>
   int \<Rightarrow> string \<Rightarrow> ComponentDataType \<Rightarrow> Value \<Rightarrow> unit outcome \<times> workflowMemory \<times> redis" where
  "SetComponentData tsv e wfm rc batchIdx componentID t v =
     (if in_range wfm batchIdx then
        (case Data wfm ! nat batchIdx of
           Map rootFields \<Rightarrow>
             (case map_of rootFields componentID of
                None \<Rightarrow> (Error (''component '' @ componentID @ '' not exist''), wfm, rc)
              | Some (Map compFields) \<Rightarrow>
                  (let wfm' = set_root wfm batchIdx
                                (AList.update componentID (Map (AList.update t v compFields)) rootFields)
                   in if streaming wfm then
                        (case struct_conversion tsv e v of
                           Ok d \<Rightarrow>
                             (let event =
                                (if t = ComponentDataInput then
                                   Event ComponentInputUpdated
                                     (ComponentInputEventData (now e) componentID 0 d)
                                 else if t = ComponentDataOutput then
                                   Event ComponentOutputUpdated
                                     (ComponentOutputEventData (now e) componentID 0 d)
                                 else Event [] NoData)
                              in (case encode_and_publish e rc (ID wfm) event of
                                    (r, rc') \<Rightarrow> (r, wfm', rc')))
                         | Error m \<Rightarrow> (Error m, wfm', rc)
                         | Panic p \<Rightarrow> (Panic p, wfm', rc))
                      else (Ok (), wfm', rc))
              | Some _ \<Rightarrow> (Panic InterfaceConversion, wfm, rc))
         | _ \<Rightarrow> (Panic InterfaceConversion, wfm, rc))
      else (Panic IndexOutOfRange, wfm, rc))"

definition GetComponentData ::
  "workflowMemory \<Rightarrow> int \<Rightarrow> string \<Rightarrow> ComponentDataType \<Rightarrow> Value outcome" where
  "GetComponentData wfm batchIdx componentID t =
     (if in_range wfm batchIdx then
        (case Data wfm ! nat batchIdx of
           Map rootFields \<Rightarrow>
             (case map_of rootFields componentID of
                None \<Rightarrow> Error (''component '' @ componentID @ '' not exist'')
              | Some (Map compFields) \<Rightarrow> Ok (lookup_field compFields t)
              | Some _ \<Rightarrow> Panic InterfaceConversion)
         | _ \<Rightarrow> Panic InterfaceConversion)
      else Panic IndexOutOfRange)"

definition SetComponentStatus ::
  "env \<Rightarrow> workflowMemory \<Rightarrow> redis \<Rightarrow>
   int \<Rightarrow> string \<Rightarrow> ComponentStatusType \<Rightarrow> bool \<Rightarrow> unit outcome \<times> workflowMemory \<times> redis" where
  "SetComponentStatus e wfm rc batchIdx componentID t v =
     (if in_range wfm batchIdx then
        (case Data wfm ! nat batchIdx of
           Map rootFields \<Rightarrow>
             (case map_of rootFields componentID of
                None \<Rightarrow> (Error (''component '' @ componentID @ '' not exist''), wfm, rc)
              | Some (Map compFields) \<Rightarrow>
                  (case lookup_field compFields ''status'' of
                     Map st \<Rightarrow>
                       (let st' = AList.update t (NewBoolean v) st;
                            wfm' = set_root wfm batchIdx
                                     (AList.update componentID
                                        (Map (AList.update ''status'' (Map st') compFields)) rootFields)
                        in if streaming wfm then
                             (case lookup_field st' ComponentStatusStarted of
                                Boolean started \<Rightarrow>
                                  (case lookup_field st' ComponentStatusSkipped of
                                     Boolean skipped \<Rightarrow>
                                       (case lookup_field st' ComponentStatusCompleted of
                                          Boolean completed \<Rightarrow>
                                            (let event = Event ComponentStatusUpdated
                                                   (ComponentStatusEventData (now e) componentID batchIdx
                                                      [(ComponentStatusStarted, started),
                                                       (ComponentStatusSkipped, skipped),
                                                       (ComponentStatusCompleted, completed)])
                                             in (case encode_and_publish e rc (ID wfm) event of
                                                   (r, rc') \<Rightarrow> (r, wfm', rc')))
                                        | _ \<Rightarrow> (Panic InterfaceConversion, wfm', rc))
                                   | _ \<Rightarrow> (Panic InterfaceConversion, wfm', rc))
                              | _ \<Rightarrow> (Panic InterfaceConversion, wfm', rc))
                           else (Ok (), wfm', rc))
                   | _ \<Rightarrow> (Panic InterfaceConversion, wfm, rc))
              | Some _ \<Rightarrow> (Panic InterfaceConversion, wfm, rc))
         | _ \<Rightarrow> (Panic InterfaceConversion, wfm, rc))
      else (Panic IndexOutOfRange, wfm, rc))"

definition GetComponentStatus ::
  "workflowMemory \<Rightarrow> int \<Rightarrow> string \<Rightarrow> ComponentStatusType \<Rightarrow> bool outcome" where
  "GetComponentStatus wfm batchIdx componentID t =
     (if in_range wfm batchIdx then
        (case Data wfm ! nat batchIdx of
           Map rootFields \<Rightarrow>
             (case map_of rootFields componentID of
                None \<Rightarrow> Error (''component '' @ componentID @ '' not exist'')
              | Some (Map compFields) \<Rightarrow>
                  (case lookup_field compFields ''status'' of
                     Map st \<Rightarrow>
                       (case lookup_field st t of
                          Boolean b \<Rightarrow> Ok b
                        | _ \<Rightarrow> Panic InterfaceConversion)
                   | _ \<Rightarrow> Panic InterfaceConversion)
              | Some _ \<Rightarrow> Panic InterfaceConversion)
         | _ \<Rightarrow> Panic InterfaceConversion)
      else Panic IndexOutOfRange)"

definition SetPipelineData ::
  "(Value \<Rightarrow> structpb outcome) \<Rightarrow> env \<Rightarrow> workflowMemory \<Rightarrow> redis \<Rightarrow>
   int \<Rightarrow> PipelineDataType \<Rightarrow> Value \<Rightarrow> unit outcome \<times> workflowMemory \<times> redis" where
  "SetPipelineData tsv e wfm rc batchIdx t v =
     (if in_range wfm batchIdx then
        (case Data wfm ! nat batchIdx of
           Map rootFields \<Rightarrow>
             (let wfm' = set_root wfm batchIdx (AList.update t v rootFields)
              in if streaming wfm then
                   (case struct_conversion tsv e v of
                      Ok d \<Rightarrow>
                        (let event =
                           (if t = PipelineOutput then
                              Event PipelineOutputUpdated (PipelineCompletedEventData (now e) 0 d)
                            else Event [] NoData)
                         in (case encode_and_publish e rc (ID wfm) event of
                               (r, rc') \<Rightarrow> (r, wfm', rc')))
                    | Error m \<Rightarrow> (Error m, wfm', rc)
                    | Panic p \<Rightarrow> (Panic p, wfm', rc))
                 else (Ok (), wfm', rc))
         | _ \<Rightarrow> (Panic InterfaceConversion, wfm, rc))
      else (Panic IndexOutOfRange, wfm, rc))"

definition GetPipelineData :: "workflowMemory \<Rightarrow> int \<Rightarrow> PipelineDataType \<Rightarrow> Value outcome" where
  "GetPipelineData wfm batchIdx t =
     (if in_range wfm batchIdx then
        (case Data wfm ! nat batchIdx of
           Map rootFields \<Rightarrow>
             (case map_of rootFields t of
                None \<Rightarrow> Error (t @ '' not exist'')
              | Some v \<Rightarrow> Ok v)
         | _ \<Rightarrow> Panic InterfaceConversion)
      else Panic IndexOutOfRange)"

definition Set :: "workflowMemory \<Rightarrow> int \<Rightarrow> string \<Rightarrow> Value \<Rightarrow> unit outcome \<times> workflowMemory" where
  "Set wfm batchIdx key v =
     (if in_range wfm batchIdx then
        (case Data wfm ! nat batchIdx of
           Map rootFields \<Rightarrow> (Ok (), set_root wfm batchIdx (AList.update key v rootFields))
         | _ \<Rightarrow> (Panic InterfaceConversion, wfm))
      else (Panic IndexOutOfRange, wfm))"

text \<open>
  \<^verbatim>\<open>Get\<close>. The first loop rewrites the fields of the path into the bracketed form
  (\<open>newPath_loop\<close>): a field that ends in \<^verbatim>\<open>]\<close> is an array index, any other a quoted
  map key. The second loop (\<open>Get_loop\<close>) walks the value: a step that
  \<^verbatim>\<open>strconv.Atoi\<close> reads is an index into \<^verbatim>\<open>ptr.(*data.Array).Values\<close>, any other step
  loses its first and last character and is a key of \<^verbatim>\<open>ptr.(*data.Map).Fields\<close>.
\<close>

fun newPath_loop :: "string \<Rightarrow> string list \<Rightarrow> string" where
  "newPath_loop newPath [] = newPath"
| "newPath_loop newPath (split # splits) =
     newPath_loop
       (if HasSuffix split '']'' then newPath @ (''['' @ split)
        else newPath @ ([CHR ''['', CHR 0x22] @ split @ [CHR 0x22, CHR '']'']))
       splits"

fun Get_loop :: "Value \<Rightarrow> string list \<Rightarrow> Value outcome" where
  "Get_loop ptr [] = Ok ptr"
| "Get_loop ptr (s # ss) =
     (case Atoi s of
        Some i \<Rightarrow>
          (case ptr of
             Array values \<Rightarrow>
               (if 0 \<le> i \<and> i < int (length values) then Get_loop (values ! nat i) ss
                else Panic IndexOutOfRange)
           | _ \<Rightarrow> Panic InterfaceConversion)
      | None \<Rightarrow>
          (if length s < 2 then Panic SliceBoundsOutOfRange
           else
             (let key = take (length s - 2) (drop 1 s)
              in (case ptr of
                    Map fs \<Rightarrow> Get_loop (lookup_field fs key) ss
                  | _ \<Rightarrow> Panic InterfaceConversion))))"

definition Get :: "workflowMemory \<Rightarrow> int \<Rightarrow> string \<Rightarrow> Value outcome" where
  "Get wfm batchIdx path =
     (if path = [] then
        (if in_range wfm batchIdx then Ok (Data wfm ! nat batchIdx) else Panic IndexOutOfRange)
      else
        (let splits = FieldsFunc path (\<lambda>s. s = CHR ''.'' \<or> s = CHR ''['');
             newPath = newPath_loop [] splits
         in if length newPath < 2 then Panic SliceBoundsOutOfRange
            else
              (let ss = Split (take (length newPath - 2) (drop 1 newPath)) '']['' 
               in if in_range wfm batchIdx then Get_loop (Data wfm ! nat batchIdx) ss
                  else Panic IndexOutOfRange)))"

definition GetBatchSize :: "workflowMemory \<Rightarrow> int" where
  "GetBatchSize wfm = int (length (Data wfm))"

definition SetRecipe :: "workflowMemory \<Rightarrow> Recipe option \<Rightarrow> workflowMemory" where
  "SetRecipe wfm r = wfm\<lparr>Recipe := r\<rparr>"

definition GetRecipe :: "workflowMemory \<Rightarrow> Recipe option" where
  "GetRecipe wfm = Recipe wfm"

section \<open>The memory store\<close>

text \<open>
  \<^verbatim>\<open>memoryStore.workflows\<close> maps a workflow ID to its workflow memory. A handle is a
  pointer to the registered object; the model hands out the object's state.
  \<^verbatim>\<open>make([]data.Value, batchSize)\<close> panics for a negative length; running out of memory
  for a huge one is not part of the model.
\<close>

record memoryStore =
  workflows :: "string \<rightharpoonup> workflowMemory"

definition NewWorkflowMemory ::
  "memoryStore \<Rightarrow> string \<Rightarrow> Recipe option \<Rightarrow> int \<Rightarrow> workflowMemory outcome \<times> memoryStore" where
  "NewWorkflowMemory ms workflowID r batchSize =
     (if batchSize < 0 then (Panic MakeSliceLenOutOfRange, ms)
      else
        (let wfmData = replicate (nat batchSize)
               (NewMap (Some
                  [(PipelineVariable, NewMap None),
                   (PipelineSecret, NewMap None),
                   (PipelineOutput, NewMap None)]));
             ms' = ms\<lparr>workflows := (workflows ms)(workflowID \<mapsto>
                     \<lparr>ID = workflowID, Data = wfmData, Recipe = r, streaming = False\<rparr>)\<rparr>
         in (case workflows ms' workflowID of
               None \<Rightarrow> (Error ''workflow memory not found'', ms')
             | Some wfm \<Rightarrow> (Ok wfm, ms'))))"

definition GetWorkflowMemory :: "memoryStore \<Rightarrow> string \<Rightarrow> workflowMemory outcome" where
  "GetWorkflowMemory ms workflowID =
     (case workflows ms workflowID of
        None \<Rightarrow> Error ''workflow memory not found''
      | Some wfm \<Rightarrow> Ok wfm)"

definition PurgeWorkflowMemory :: "memoryStore \<Rightarrow> string \<Rightarrow> unit outcome \<times> memoryStore" where
  "PurgeWorkflowMemory ms workflowID = (Ok (), ms\<lparr>workflows := (workflows ms)(workflowID := None)\<rparr>)"

definition SendWorkflowStatusEvent ::
  "env \<Rightarrow> redis \<Rightarrow> string \<Rightarrow> Event \<Rightarrow> unit outcome \<times> redis" where
  "SendWorkflowStatusEvent e rc workflowID event = encode_and_publish e rc workflowID event"

text \<open>
  Modelled from the spec: the binary codec of a workflow memory (\<^verbatim>\<open>encoding/gob\<close>
  together with the codec support of package data) is not in the sources. After
  section 4.4 of the specification the encoding holds \<open>data\<close>, \<open>recipe\<close> and \<open>id\<close>, not
  the mutex or the bus handle; after section 3 every value round-trips through the
  codec; decoding fails on a malformed blob. \<^verbatim>\<open>streaming\<close> is unexported, so a decoded
  memory has the zero value there.
\<close>

definition gob_Encode_workflowMemory :: "workflowMemory \<Rightarrow> blob outcome" where
  "gob_Encode_workflowMemory wfm =
     Ok (Encoded \<lparr>snap_ID = ID wfm, snap_Data = Data wfm, snap_Recipe = Recipe wfm\<rparr>)"

definition gob_Decode_workflowMemory :: "blob \<Rightarrow> workflowMemory outcome" where
  "gob_Decode_workflowMemory b =
     (case b of
        Encoded s \<Rightarrow>
          Ok \<lparr>ID = snap_ID s, Data = snap_Data s, Recipe = snap_Recipe s, streaming = False\<rparr>
      | Malformed \<Rightarrow> Error ''gob: malformed workflow memory'')"

definition redis_Set :: "env \<Rightarrow> redis \<Rightarrow> string \<Rightarrow> blob \<Rightarrow> unit outcome \<times> redis" where
  "redis_Set e rc key b =
     (case set_err e of
        Some m \<Rightarrow> (Error m, rc)
      | None \<Rightarrow> (Ok (), rc\<lparr>kv := (kv rc)(key \<mapsto> b)\<rparr>))"

definition redis_Get :: "env \<Rightarrow> redis \<Rightarrow> string \<Rightarrow> blob outcome" where
  "redis_Get e rc key =
     (case get_err e of
        Some m \<Rightarrow> Error m
      | None \<Rightarrow> (case kv rc key of None \<Rightarrow> Error ''redis: nil'' | Some b \<Rightarrow> Ok b))"

definition WriteWorkflowMemoryToRedis ::
  "env \<Rightarrow> memoryStore \<Rightarrow> redis \<Rightarrow> string \<Rightarrow> unit outcome \<times> redis" where
  "WriteWorkflowMemoryToRedis e ms rc workflowID =
     (case workflows ms workflowID of
        None \<Rightarrow> (Error ''workflow memory not found'', rc)
      | Some wfm \<Rightarrow>
          (case gob_Encode_workflowMemory wfm of
             Ok buf \<Rightarrow> redis_Set e rc (''pipeline_trigger:'' @ workflowID) buf
           | Error m \<Rightarrow> (Error m, rc)
           | Panic p \<Rightarrow> (Panic p, rc)))"

definition LoadWorkflowMemoryFromRedis ::
  "env \<Rightarrow> memoryStore \<Rightarrow> redis \<Rightarrow> string \<Rightarrow> workflowMemory outcome \<times> memoryStore" where
  "LoadWorkflowMemoryFromRedis e ms rc workflowID =
     (case redis_Get e rc (''pipeline_trigger:'' @ workflowID) of
        Ok b \<Rightarrow>
          (case gob_Decode_workflowMemory b of
             Ok wfm \<Rightarrow>
               (let wfm' = wfm\<lparr>ID := workflowID\<rparr>
                in (Ok wfm', ms\<lparr>workflows := (workflows ms)(workflowID \<mapsto> wfm')\<rparr>))
           | Error m \<Rightarrow> (Error m, ms)
           | Panic p \<Rightarrow> (Panic p, ms))
      | Error m \<Rightarrow> (Error m, ms)
      | Panic p \<Rightarrow> (Panic p, ms))"

section \<open>Example states\<close>

text \<open>
  An environment in which every library and network call succeeds, an empty Redis, the
  workflow memory that \<^verbatim>\<open>NewWorkflowMemory("w1", nil, 2)\<close> returns, and that memory after
  \<^verbatim>\<open>EnableStreaming()\<close> and \<^verbatim>\<open>InitComponent(1, "c1")\<close>; and a memory whose one root is
  \<^verbatim>\<open>{"a": {"b": [{"c": 10}, {"c": 20}]}}\<close>.
\<close>

definition example_env :: env where
  "example_env = \<lparr>now = 0, marshal_err = None, encode_err = None, publish_err = None,
                   set_err = None, get_err = None\<rparr>"

definition example_redis :: redis where
  "example_redis = \<lparr>kv = Map.empty, published = []\<rparr>"

definition example_fresh :: workflowMemory where
  "example_fresh =
     \<lparr>ID = ''w1'',
      Data = [Map [(''variable'', Map []), (''secret'', Map []), (''output'', Map [])],
              Map [(''variable'', Map []), (''secret'', Map []), (''output'', Map [])]],
      Recipe = None, streaming = False\<rparr>"

definition example_streaming :: workflowMemory where
  "example_streaming = snd (InitComponent (EnableStreaming example_fresh) 1 ''c1'')"

definition example_nested :: workflowMemory where
  "example_nested =
     \<lparr>ID = ''w1'',
      Data = [Map [(''a'', Map [(''b'', Array [Map [(''c'', Number 10)], Map [(''c'', Number 20)]])])]],
      Recipe = None, streaming = False\<rparr>"

section \<open>Well-formed paths\<close>

text \<open>
  The path language of section 4.2 of the specification, against which \<^verbatim>\<open>Get\<close> is
  compared: a path is a sequence of steps, a map key or an array index \<open>[N]\<close>; a key is
  written after a dot (the first key without one) and an index in brackets, in
  decimal. A key is well formed when it is not empty, has no dot and no opening
  bracket and does not end in a closing bracket; an index when it fits a 64-bit
  \<^verbatim>\<open>int\<close>.
\<close>

datatype step = Key string | Index nat

function decimal :: "nat \<Rightarrow> string" where
  "decimal n =
     (if n < 10 then [char_of (48 + n)]
      else decimal (n div 10) @ [char_of (48 + n mod 10)])"
  by pat_completeness auto
termination
  by (relation "measure (\<lambda>n. n)") auto

declare decimal.simps [simp del]

fun render_rest :: "step list \<Rightarrow> string" where
  "render_rest [] = []"
| "render_rest (Key k # r) = CHR ''.'' # k @ render_rest r"
| "render_rest (Index n # r) = CHR ''['' # decimal n @ '']'' @ render_rest r"

fun render :: "step list \<Rightarrow> string" where
  "render [] = []"
| "render (Key k # r) = k @ render_rest r"
| "render (Index n # r) = CHR ''['' # decimal n @ '']'' @ render_rest r"

fun wf_step :: "step \<Rightarrow> bool" where
  "wf_step (Key k) =
     (k \<noteq> [] \<and> CHR ''.'' \<notin> set k \<and> CHR ''['' \<notin> set k \<and> last k \<noteq> CHR '']'')"
| "wf_step (Index n) = (n < 2 ^ 63)"

text \<open>
  What resolving a sequence of steps amounts to in the sources: a key step needs a
  map and yields the field, nil when the key is absent; an index step needs an array
  and an index within it; a step of the wrong kind for the value, also for the nil of
  an absent key, is a failed type assertion, and an index past the end an index out
  of range. No step returns an error.
\<close>

fun resolve :: "Value \<Rightarrow> step list \<Rightarrow> Value outcome" where
  "resolve v [] = Ok v"
| "resolve v (Key k # r) =
     (case v of
        Map fs \<Rightarrow> resolve (lookup_field fs k) r
      | _ \<Rightarrow> Panic InterfaceConversion)"
| "resolve v (Index n # r) =
     (case v of
        Array vs \<Rightarrow> (if n < length vs then resolve (vs ! n) r else Panic IndexOutOfRange)
      | _ \<Rightarrow> Panic InterfaceConversion)"

text \<open>
  The intermediate forms of a step inside \<^verbatim>\<open>Get\<close>: its field after
  \<^verbatim>\<open>strings.FieldsFunc\<close>, its token after \<^verbatim>\<open>strings.Split\<close>, and the tokens joined by \<^verbatim>\<open>][\<close>.
\<close>

abbreviation path_sep :: "char \<Rightarrow> bool" where
  "path_sep \<equiv> (\<lambda>s. s = CHR ''.'' \<or> s = CHR ''['')"

fun field_of :: "step \<Rightarrow> string" where
  "field_of (Key k) = k"
| "field_of (Index n) = decimal n @ '']''"

fun token_of :: "step \<Rightarrow> string" where
  "token_of (Key k) = CHR 0x22 # k @ [CHR 0x22]"
| "token_of (Index n) = decimal n"

fun joined :: "step list \<Rightarrow> string" where
  "joined [] = []"
| "joined [s] = token_of s"
| "joined (s # s' # r) = token_of s @ '']['' @ joined (s' # r)"

section \<open>Basic facts about the state\<close>

lemma in_range_set_root [simp]: "in_range (set_root wfm i fs) j = in_range wfm j"
  by (simp add: in_range_def set_root_def)

lemma Data_set_root_same [simp]:
  "in_range wfm i \<Longrightarrow> Data (set_root wfm i fs) ! nat i = Map fs"
  by (simp add: in_range_def set_root_def nat_less_iff)

lemma lookup_field_update [simp]:
  "lookup_field (AList.update k v fs) k' = (if k' = k then v else lookup_field fs k')"
  by (simp add: lookup_field_def update_conv')

text \<open>Encoding and publishing an event appends it to the channel, or fails and sends nothing.\<close>

lemma encode_and_publish_Ok:
  "encode_and_publish e rc ch ev = (Ok (), rc') \<longleftrightarrow>
     encode_err e = None \<and> publish_err e = None
     \<and> rc' = rc\<lparr>published := published rc @ [(ch, ev)]\<rparr>"
  by (auto simp add: encode_and_publish_def gob_Encode_def Publish_def split: option.splits)

lemma encode_and_publish_not_Ok:
  "encode_and_publish e rc ch ev = (r, rc') \<Longrightarrow> r \<noteq> Ok () \<Longrightarrow> rc' = rc"
  by (auto simp add: encode_and_publish_def gob_Encode_def Publish_def split: option.splits)

lemma encode_and_publish_succeeds:
  "encode_err e = None \<Longrightarrow> publish_err e = None \<Longrightarrow>
   encode_and_publish e rc ch ev = (Ok (), rc\<lparr>published := published rc @ [(ch, ev)]\<rparr>)"
  by (simp add: encode_and_publish_def gob_Encode_def Publish_def)

lemma encode_and_publish_publish_fails:
  "encode_err e = None \<Longrightarrow> publish_err e = Some m \<Longrightarrow>
   encode_and_publish e rc ch ev = (Error m, rc)"
  by (simp add: encode_and_publish_def gob_Encode_def Publish_def)

lemma protojson_Marshal_publish_err [simp]:
  "protojson_Marshal (e\<lparr>publish_err := x\<rparr>) s = protojson_Marshal e s"
  by (simp add: protojson_Marshal_def)

lemma struct_conversion_publish_err [simp]:
  "struct_conversion tsv (e\<lparr>publish_err := x\<rparr>) v = struct_conversion tsv e v"
  by (simp add: struct_conversion_def split: outcome.splits)

text \<open>
  What a successful streaming setter did, and what a streaming setter does once the state
  has the shape it needs.
\<close>

lemma SetComponentStatus_streaming_OkD:
  assumes "SetComponentStatus e wfm rc i C t b = (Ok (), wfm', rc')" and "streaming wfm"
  shows "\<exists>rootFields compFields st started skipped completed.
           in_range wfm i \<and> Data wfm ! nat i = Map rootFields
         \<and> map_of rootFields C = Some (Map compFields)
         \<and> lookup_field compFields ''status'' = Map st
         \<and> lookup_field (AList.update t (Boolean b) st) ComponentStatusStarted = Boolean started
         \<and> lookup_field (AList.update t (Boolean b) st) ComponentStatusSkipped = Boolean skipped
         \<and> lookup_field (AList.update t (Boolean b) st) ComponentStatusCompleted = Boolean completed
         \<and> wfm' = set_root wfm i (AList.update C
                     (Map (AList.update ''status'' (Map (AList.update t (Boolean b) st)) compFields)) rootFields)
         \<and> encode_err e = None \<and> publish_err e = None
         \<and> rc' = rc\<lparr>published := published rc @
               [(ID wfm, (Event ComponentStatusUpdated (ComponentStatusEventData (now e) C i
                   [(ComponentStatusStarted, started), (ComponentStatusSkipped, skipped),
                    (ComponentStatusCompleted, completed)])))]\<rparr>"
  using assms
  unfolding SetComponentStatus_def NewBoolean_def Let_def
  by (simp split: if_splits Value.splits option.splits prod.splits add: encode_and_publish_Ok)

lemma SetComponentStatus_streaming_eval:
  assumes "in_range wfm i" and "Data wfm ! nat i = Map rootFields"
    and "map_of rootFields C = Some (Map compFields)"
    and "lookup_field compFields ''status'' = Map st"
    and "lookup_field (AList.update t (Boolean b) st) ComponentStatusStarted = Boolean started"
    and "lookup_field (AList.update t (Boolean b) st) ComponentStatusSkipped = Boolean skipped"
    and "lookup_field (AList.update t (Boolean b) st) ComponentStatusCompleted = Boolean completed"
    and "streaming wfm"
  shows "SetComponentStatus e wfm rc i C t b =
           (fst (encode_and_publish e rc (ID wfm) (Event ComponentStatusUpdated (ComponentStatusEventData (now e) C i
                   [(ComponentStatusStarted, started), (ComponentStatusSkipped, skipped),
                    (ComponentStatusCompleted, completed)]))),
            set_root wfm i (AList.update C
              (Map (AList.update ''status'' (Map (AList.update t (Boolean b) st)) compFields)) rootFields),
            snd (encode_and_publish e rc (ID wfm) (Event ComponentStatusUpdated (ComponentStatusEventData (now e) C i
                   [(ComponentStatusStarted, started), (ComponentStatusSkipped, skipped),
                    (ComponentStatusCompleted, completed)]))))"
  using assms
  unfolding SetComponentStatus_def NewBoolean_def Let_def
  by (simp split: prod.splits)

lemma SetComponentData_streaming_eval:
  assumes "in_range wfm i" and "Data wfm ! nat i = Map rootFields"
    and "map_of rootFields C = Some (Map compFields)"
    and "struct_conversion tsv e v = Ok d"
    and "streaming wfm"
  shows "SetComponentData tsv e wfm rc i C t v =
           (fst (encode_and_publish e rc (ID wfm)
                  (if t = ComponentDataInput then
                     Event ComponentInputUpdated (ComponentInputEventData (now e) C 0 d)
                   else if t = ComponentDataOutput then
                     Event ComponentOutputUpdated (ComponentOutputEventData (now e) C 0 d)
                   else Event [] NoData)),
            set_root wfm i (AList.update C (Map (AList.update t v compFields)) rootFields),
            snd (encode_and_publish e rc (ID wfm)
                  (if t = ComponentDataInput then
                     Event ComponentInputUpdated (ComponentInputEventData (now e) C 0 d)
                   else if t = ComponentDataOutput then
                     Event ComponentOutputUpdated (ComponentOutputEventData (now e) C 0 d)
                   else Event [] NoData)))"
  using assms
  unfolding SetComponentData_def Let_def
  by (simp split: prod.splits)

lemma SetPipelineData_streaming_eval:
  assumes "in_range wfm i" and "Data wfm ! nat i = Map rootFields"
    and "struct_conversion tsv e v = Ok d"
    and "streaming wfm"
  shows "SetPipelineData tsv e wfm rc i t v =
           (fst (encode_and_publish e rc (ID wfm)
                  (if t = PipelineOutput then
                     Event PipelineOutputUpdated (PipelineCompletedEventData (now e) 0 d)
                   else Event [] NoData)),
            set_root wfm i (AList.update t v rootFields),
            snd (encode_and_publish e rc (ID wfm)
                  (if t = PipelineOutput then
                     Event PipelineOutputUpdated (PipelineCompletedEventData (now e) 0 d)
                   else Event [] NoData)))"
  using assms
  unfolding SetPipelineData_def Let_def
  by (simp split: prod.splits)

lemma GetComponentStatus_after_set:
  assumes "in_range wfm i"
    and "lookup_field st' t = Boolean b"
  shows "GetComponentStatus
           (set_root wfm i (AList.update C (Map (AList.update ''status'' (Map st') compFields)) rootFields))
           i C t = Ok b"
  using assms by (simp add: GetComponentStatus_def update_conv')

lemma GetComponentData_after_set:
  assumes "in_range wfm i"
  shows "GetComponentData
           (set_root wfm i (AList.update C (Map (AList.update t v compFields)) rootFields))
           i C t = Ok v"
  using assms by (simp add: GetComponentData_def update_conv')

lemma GetPipelineData_after_set:
  assumes "in_range wfm i"
  shows "GetPipelineData (set_root wfm i (AList.update t v rootFields)) i t = Ok v"
  using assms by (simp add: GetPipelineData_def update_conv')

text \<open>
  The path resolver on a rendered path: the decimal numeral is read back by
  \<^verbatim>\<open>strconv.Atoi\<close>, \<^verbatim>\<open>strings.FieldsFunc\<close> finds one field per step, the first loop of
  \<^verbatim>\<open>Get\<close> writes one bracketed piece per field, \<^verbatim>\<open>strings.Split\<close> finds one token per
  piece, and the second loop walks the tokens as \<open>resolve\<close> walks the steps.
\<close>

lemma decimal_nonempty: "decimal n \<noteq> []"
  by (subst decimal.simps) simp

lemma is_digit_char_of: "d < 10 \<Longrightarrow> is_digit (char_of (48 + d :: nat))"
  by (simp add: is_digit_def)

lemma digit_val_char_of: "d < 10 \<Longrightarrow> digit_val (char_of (48 + d :: nat)) = int d"
  by (simp add: digit_val_def)

lemma decimal_digits: "list_all is_digit (decimal n)"
proof (induction n rule: decimal.induct)
  case (1 n)
  show ?case
  proof (cases "n < 10")
    case True
    then show ?thesis by (subst decimal.simps) (simp add: is_digit_char_of)
  next
    case False
    with 1 have "list_all is_digit (decimal (n div 10))" by simp
    with False show ?thesis by (subst decimal.simps) (simp add: is_digit_char_of)
  qed
qed

lemma decimal_value: "foldl (\<lambda>a c. a * 10 + digit_val c) 0 (decimal n) = int n"
proof (induction n rule: decimal.induct)
  case (1 n)
  show ?case
  proof (cases "n < 10")
    case True
    then show ?thesis by (subst decimal.simps) (simp add: digit_val_char_of)
  next
    case False
    with 1 have "foldl (\<lambda>a c. a * 10 + digit_val c) 0 (decimal (n div 10)) = int (n div 10)"
      by simp
    with False show ?thesis
      by (subst decimal.simps) (simp add: digit_val_char_of zdiv_int zmod_int)
  qed
qed

lemma is_digit_not_sign: "is_digit c \<Longrightarrow> c \<noteq> CHR ''-'' \<and> c \<noteq> CHR ''+''"
  by (auto simp add: is_digit_def)

lemma Atoi_decimal:
  assumes "n < 2 ^ 63"
  shows "Atoi (decimal n) = Some (int n)"
proof -
  have ne: "decimal n \<noteq> []" by (rule decimal_nonempty)
  have dg: "list_all is_digit (decimal n)" by (rule decimal_digits)
  from ne dg have "is_digit (hd (decimal n))" by (cases "decimal n") simp_all
  then have hd: "hd (decimal n) \<noteq> CHR ''-''" "hd (decimal n) \<noteq> CHR ''+''"
    using is_digit_not_sign by blast+
  from assms have "int n < 2 ^ 63" by (metis of_nat_less_iff of_nat_numeral of_nat_power)
  with ne dg hd show ?thesis
    by (simp add: Atoi_def Let_def decimal_value)
qed

lemma is_digit_not_special:
  "is_digit c \<Longrightarrow> c \<noteq> CHR ''.'' \<and> c \<noteq> CHR ''['' \<and> c \<noteq> CHR '']'' \<and> c \<noteq> CHR 0x22"
  by (auto simp add: is_digit_def)

lemma decimal_no_special:
  "c \<in> set (decimal n) \<Longrightarrow> c \<noteq> CHR ''.'' \<and> c \<noteq> CHR ''['' \<and> c \<noteq> CHR '']'' \<and> c \<noteq> CHR 0x22"
  using decimal_digits [of n] is_digit_not_special by (auto simp add: list_all_iff)

lemma FieldsFunc_from_run:
  "\<forall>c \<in> set w. \<not> f c \<Longrightarrow> FieldsFunc_from f cur (w @ rest) = FieldsFunc_from f (cur @ w) rest"
  by (induction w arbitrary: cur) simp_all

lemma field_of_nonempty: "wf_step s \<Longrightarrow> field_of s \<noteq> []"
  by (cases s) simp_all

lemma field_of_no_sep: "wf_step s \<Longrightarrow> \<forall>c \<in> set (field_of s). \<not> path_sep c"
  by (cases s) (auto dest: decimal_no_special)

lemma render_rest_fields:
  "list_all wf_step steps \<Longrightarrow>
   FieldsFunc_from path_sep cur (render_rest steps) =
     (if cur = [] then [] else [cur]) @ map field_of steps"
proof (induction steps arbitrary: cur)
  case Nil
  then show ?case by simp
next
  case (Cons s steps)
  then have wf: "wf_step s" and rest: "list_all wf_step steps" by simp_all
  have run: "FieldsFunc_from path_sep [] (field_of s @ render_rest steps)
               = field_of s # map field_of steps"
    using FieldsFunc_from_run [OF field_of_no_sep [OF wf], of "[]" "render_rest steps"]
      Cons.IH [OF rest, of "field_of s"] field_of_nonempty [OF wf]
    by simp
  show ?case
  proof (cases s)
    case (Key k)
    with run show ?thesis by simp
  next
    case (Index n)
    with run show ?thesis by simp
  qed
qed

lemma render_fields:
  assumes "list_all wf_step steps"
  shows "FieldsFunc (render steps) path_sep = map field_of steps"
proof (cases steps)
  case Nil
  then show ?thesis by (simp add: FieldsFunc_def)
next
  case (Cons s rest)
  with assms have wf: "wf_step s" and r: "list_all wf_step rest" by simp_all
  have run: "FieldsFunc_from path_sep [] (field_of s @ render_rest rest)
               = field_of s # map field_of rest"
    using FieldsFunc_from_run [OF field_of_no_sep [OF wf], of "[]" "render_rest rest"]
      render_rest_fields [OF r, of "field_of s"] field_of_nonempty [OF wf]
    by simp
  show ?thesis
  proof (cases s)
    case (Key k)
    with run Cons show ?thesis by (simp add: FieldsFunc_def)
  next
    case (Index n)
    with run Cons show ?thesis by (simp add: FieldsFunc_def)
  qed
qed

lemma HasSuffix_bracket: "HasSuffix s '']'' \<longleftrightarrow> s \<noteq> [] \<and> last s = CHR '']''"
proof (cases s rule: rev_cases)
  case Nil
  then show ?thesis by (simp add: HasSuffix_def)
next
  case (snoc xs x)
  then show ?thesis by (simp add: HasSuffix_def)
qed

lemma newPath_loop_steps:
  "list_all wf_step steps \<Longrightarrow>
   newPath_loop acc (map field_of steps) = acc @ concat (map (\<lambda>s. CHR ''['' # token_of s @ '']'') steps)"
proof (induction steps arbitrary: acc)
  case Nil
  then show ?case by simp
next
  case (Cons s steps)
  then have wf: "wf_step s" and rest: "list_all wf_step steps" by simp_all
  show ?case
  proof (cases s)
    case (Key k)
    with wf Cons.IH [OF rest] show ?thesis by (simp add: HasSuffix_bracket)
  next
    case (Index n)
    with wf Cons.IH [OF rest] show ?thesis by (simp add: HasSuffix_bracket)
  qed
qed

lemma concat_pieces_joined:
  "steps \<noteq> [] \<Longrightarrow>
   concat (map (\<lambda>s. CHR ''['' # token_of s @ '']'') steps) = CHR ''['' # joined steps @ '']''"
  by (induction steps rule: joined.induct) simp_all

lemma Split_from_run:
  "CHR ''['' \<notin> set w \<Longrightarrow> (w \<noteq> [] \<Longrightarrow> last w \<noteq> CHR '']'') \<Longrightarrow>
   Split_from '']['' cur (w @ rest) = Split_from '']['' (cur @ w) rest"
proof (induction w arbitrary: cur)
  case Nil
  then show ?case by simp
next
  case (Cons c w)
  have nomatch: "take 2 (c # w @ rest) \<noteq> ''][''"
  proof (cases w)
    case Nil
    with Cons.prems show ?thesis by (cases rest) auto
  next
    case (Cons d w')
    with Cons.prems show ?thesis by auto
  qed
  have step: "Split_from '']['' cur ((c # w) @ rest) = Split_from '']['' (cur @ [c]) (w @ rest)"
    using nomatch by (subst Split_from.simps) auto
  from Cons.prems have "CHR ''['' \<notin> set w" and "w \<noteq> [] \<Longrightarrow> last w \<noteq> CHR '']''"
    by auto
  from Cons.IH [OF this, of "cur @ [c]"] step show ?case by simp
qed

lemma Split_from_sep:
  "Split_from '']['' cur (''][''  @ rest) = cur # Split_from '']['' [] rest"
  by (subst Split_from.simps) simp

lemma Split_from_end: "Split_from sep cur [] = [cur]"
  by (subst Split_from.simps) simp

lemma token_no_open: "wf_step s \<Longrightarrow> CHR ''['' \<notin> set (token_of s)"
  by (cases s) (auto dest: decimal_no_special)

lemma token_last: "wf_step s \<Longrightarrow> token_of s \<noteq> [] \<and> last (token_of s) \<noteq> CHR '']''"
proof (cases s)
  case (Key k)
  then show ?thesis by simp
next
  case (Index n)
  have "decimal n \<noteq> []" by (rule decimal_nonempty)
  then have "last (decimal n) \<in> set (decimal n)" by simp
  from decimal_no_special [OF this] Index \<open>decimal n \<noteq> []\<close> show ?thesis by simp
qed

lemma Split_joined:
  "steps \<noteq> [] \<Longrightarrow> list_all wf_step steps \<Longrightarrow>
   Split_from '']['' [] (joined steps) = map token_of steps"
proof (induction steps rule: joined.induct)
  case 1
  then show ?case by simp
next
  case (2 s)
  then have wf: "wf_step s" by simp
  from Split_from_run [OF token_no_open [OF wf], of "[]" "[]"] token_last [OF wf]
  show ?case by (simp add: Split_from_end)
next
  case (3 s s' r)
  then have wf: "wf_step s" and rest: "list_all wf_step (s' # r)" by simp_all
  from 3 rest have ih: "Split_from '']['' [] (joined (s' # r)) = map token_of (s' # r)" by simp
  from Split_from_run [OF token_no_open [OF wf], of "[]" "''][''  @ joined (s' # r)"] token_last [OF wf]
  have "Split_from '']['' [] (joined (s # s' # r))
          = Split_from '']['' (token_of s) (''][''  @ joined (s' # r))"
    by simp
  also have "\<dots> = token_of s # Split_from '']['' [] (joined (s' # r))"
    by (rule Split_from_sep)
  finally show ?case using ih by simp
qed

lemma Atoi_quoted: "Atoi (CHR 0x22 # k @ [CHR 0x22]) = None"
  by (simp add: Atoi_def Let_def is_digit_def)

lemma Get_loop_tokens:
  "list_all wf_step steps \<Longrightarrow> Get_loop v (map token_of steps) = resolve v steps"
proof (induction steps arbitrary: v)
  case Nil
  then show ?case by simp
next
  case (Cons s steps)
  then have wf: "wf_step s" and rest: "list_all wf_step steps" by simp_all
  note ih = Cons.IH [OF rest]
  show ?case
  proof (cases s)
    case (Key k)
    then show ?thesis
      by (cases v) (simp_all add: Atoi_quoted ih)
  next
    case (Index n)
    with wf have "Atoi (decimal n) = Some (int n)" by (simp add: Atoi_decimal)
    with Index show ?thesis
      by (cases v) (simp_all add: ih)
  qed
qed

lemma resolve_no_error: "resolve v steps \<noteq> Error m"
proof (induction steps arbitrary: v)
  case Nil
  then show ?case by simp
next
  case (Cons s steps)
  show ?case
  proof (cases s)
    case (Key k)
    with Cons show ?thesis by (cases v) simp_all
  next
    case (Index n)
    with Cons show ?thesis by (cases v) simp_all
  qed
qed

lemma render_nonempty: "steps \<noteq> [] \<Longrightarrow> list_all wf_step steps \<Longrightarrow> render steps \<noteq> []"
  by (induction steps rule: render.induct) simp_all

text \<open>The loops of the structural projection.\<close>

lemma Map_range_keys:
  "Map_range fs = Ok mp \<Longrightarrow>
   map fst mp = map fst (filter (\<lambda>(k, v). v \<noteq> GoNil \<and> v \<noteq> Null) fs)"
proof (induction fs arbitrary: mp)
  case Nil
  then show ?case by simp
next
  case (Cons kv fs)
  obtain k' v' where kv: "kv = (k', v')" by (cases kv)
  show ?case
  proof (cases "v' = GoNil \<or> v' = Null")
    case True
    with Cons.prems kv have "Map_range fs = Ok mp" by auto
    from Cons.IH [OF this] True kv show ?thesis by auto
  next
    case False
    with Cons.prems kv obtain s mp' where
      r: "Map_range fs = Ok mp'" and mp: "mp = (k', s) # mp'"
      by (auto split: outcome.splits)
    from Cons.IH [OF r] False kv mp show ?thesis by auto
  qed
qed

lemma Map_range_succeeds:
  "(\<And>k v. (k, v) \<in> set fs \<Longrightarrow> v = GoNil \<or> v = Null \<or> (\<exists>s. ToStructValue v = Ok s)) \<Longrightarrow>
   \<exists>mp. Map_range fs = Ok mp"
proof (induction fs)
  case Nil
  then show ?case by simp
next
  case (Cons kv fs)
  obtain k' v' where kv: "kv = (k', v')" by (cases kv)
  have "\<exists>mp. Map_range fs = Ok mp"
  proof (rule Cons.IH)
    fix k v assume "(k, v) \<in> set fs"
    then show "v = GoNil \<or> v = Null \<or> (\<exists>s. ToStructValue v = Ok s)"
      using Cons.prems [of k v] by simp
  qed
  then obtain mp where r: "Map_range fs = Ok mp" by blast
  from Cons.prems [of k' v'] kv
  have "v' = GoNil \<or> v' = Null \<or> (\<exists>s. ToStructValue v' = Ok s)" by simp
  with r kv show ?case by auto
qed

lemma Map_range_ptr_GoNil:
  "Map_range_ptr fs = Ok mp \<Longrightarrow> (k, GoNil) \<in> set fs \<Longrightarrow> (k, NullValue) \<in> set mp"
  by (induction fs arbitrary: mp) (auto split: outcome.splits if_splits)

lemma Map_range_ptr_succeeds:
  "(\<And>k v. (k, v) \<in> set fs \<Longrightarrow> v = GoNil \<or> (\<exists>s. ToStructValue_ptr v = Ok s)) \<Longrightarrow>
   \<exists>mp. Map_range_ptr fs = Ok mp"
proof (induction fs)
  case Nil
  then show ?case by simp
next
  case (Cons kv fs)
  obtain k' v' where kv: "kv = (k', v')" by (cases kv)
  have "\<exists>mp. Map_range_ptr fs = Ok mp"
  proof (rule Cons.IH)
    fix k v assume "(k, v) \<in> set fs"
    then show "v = GoNil \<or> (\<exists>s. ToStructValue_ptr v = Ok s)"
      using Cons.prems [of k v] by simp
  qed
  then obtain mp where r: "Map_range_ptr fs = Ok mp" by blast
  from Cons.prems [of k' v'] kv
  have "v' = GoNil \<or> (\<exists>s. ToStructValue_ptr v' = Ok s)" by simp
  with r kv show ?case by auto
qed

lemma Map_range_ptr_keys:
  "Map_range_ptr fs = Ok mp \<Longrightarrow> map fst mp = map fst fs"
  by (induction fs arbitrary: mp) (auto split: outcome.splits if_splits)

lemma Map_range_ptr_Null:
  "Map_range_ptr fs = Ok mp \<Longrightarrow> (k, Null) \<in> set fs \<Longrightarrow> (k, NullValue) \<in> set mp"
  by (induction fs arbitrary: mp) (auto split: outcome.splits if_splits)

lemma Array_range_Null:
  "Array_range vs = Ok ss \<Longrightarrow>
   length ss = length vs \<and> (\<forall>j<length vs. vs ! j = Null \<longrightarrow> ss ! j = NullValue)"
proof (induction vs arbitrary: ss)
  case Nil
  then show ?case by simp
next
  case (Cons v vs)
  from Cons.prems obtain s ss' where
    s: "ToStructValue v = Ok s" and r: "Array_range vs = Ok ss'" and ss: "ss = s # ss'"
    by (auto split: outcome.splits)
  from Cons.IH [OF r] have len: "length ss' = length vs"
    and nulls: "\<forall>j<length vs. vs ! j = Null \<longrightarrow> ss' ! j = NullValue" by auto
  show ?case
  proof (intro conjI allI impI)
    from len ss show "length ss = length (v # vs)" by simp
  next
    fix j assume j: "j < length (v # vs)" and n: "(v # vs) ! j = Null"
    show "ss ! j = NullValue"
    proof (cases j)
      case 0
      with n s ss show ?thesis by simp
    next
      case (Suc j')
      with j n nulls ss show ?thesis by simp
    qed
  qed
qed

lemma Array_range_ptr_Null:
  "Array_range_ptr vs = Ok ss \<Longrightarrow>
   length ss = length vs \<and> (\<forall>j<length vs. vs ! j = Null \<longrightarrow> ss ! j = NullValue)"
proof (induction vs arbitrary: ss)
  case Nil
  then show ?case by simp
next
  case (Cons v vs)
  from Cons.prems obtain s ss' where
    s: "ToStructValue_ptr v = Ok s" and r: "Array_range_ptr vs = Ok ss'" and ss: "ss = s # ss'"
    by (auto split: outcome.splits)
  from Cons.IH [OF r] have len: "length ss' = length vs"
    and nulls: "\<forall>j<length vs. vs ! j = Null \<longrightarrow> ss' ! j = NullValue" by auto
  show ?case
  proof (intro conjI allI impI)
    from len ss show "length ss = length (v # vs)" by simp
  next
    fix j assume j: "j < length (v # vs)" and n: "(v # vs) ! j = Null"
    show "ss ! j = NullValue"
    proof (cases j)
      case 0
      with n s ss show ?thesis by simp
    next
      case (Suc j')
      with j n nulls ss show ?thesis by simp
    qed
  qed
qed

text \<open>The example states, evaluated.\<close>

lemmas example_defs = example_env_def example_redis_def example_fresh_def example_streaming_def
  EnableStreaming_def InitComponent_def in_range_def set_root_def NewMap_def NewBoolean_def
  SegInput_def SegOutput_def lookup_field_def

lemma example_fresh_is_new:
  "NewWorkflowMemory \<lparr>workflows = Map.empty\<rparr> ''w1'' None 2 =
     (Ok example_fresh, \<lparr>workflows = [''w1'' \<mapsto> example_fresh]\<rparr>)"
  by (simp add: NewWorkflowMemory_def NewMap_def example_fresh_def Let_def numeral_2_eq_2)

lemma example_streaming_eq:
  "example_streaming =
     \<lparr>ID = ''w1'',
      Data = [Map [(''variable'', Map []), (''secret'', Map []), (''output'', Map [])],
              Map [(''variable'', Map []), (''secret'', Map []), (''output'', Map []),
                   (''c1'', Map [(''input'', Map []), (''output'', Map []),
                                 (''status'', Map [(''started'', Boolean False),
                                                   (''skipped'', Boolean False),
                                                   (''completed'', Boolean False)]),
                                 (''setup'', Map [])])]],
      Recipe = None, streaming = True\<rparr>"
  by (simp add: example_defs)

lemmas eval_defs = example_streaming_eq SetComponentData_def SetComponentStatus_def
  SetPipelineData_def GetComponentData_def GetComponentStatus_def GetPipelineData_def in_range_def
  struct_conversion_def protojson_Marshal_def json_Unmarshal_def encode_and_publish_def
  gob_Encode_def Publish_def example_env_def example_redis_def Let_def lookup_field_def
  NewBoolean_def set_root_def

lemma example_render:
  "render [Key ''a'', Key ''b'', Index 1, Key ''c''] = ''a.b[1].c''"
  by code_simp

section \<open>Batch index out of range\<close>

text \<open>
  Claim C1 says that every operation that takes a batch index fails with a
  \<open>BatchOutOfRange\<close> error when the index is outside \<open>0 \<le> i < batchSize\<close>, rather than
  panicking. The sources have no such check and no such error: each operation indexes
  \<^verbatim>\<open>wfm.Data[batchIdx]\<close> directly. On the two-batch example memory, reading pipeline data
  at index 2, \<^verbatim>\<open>Get\<close> at index -1 and \<^verbatim>\<open>Set\<close> at index 2 all panic with an index out of
  range.
\<close>

theorem batch_index_out_of_range_counterexample:
  "GetBatchSize example_fresh = 2
   \<and> GetPipelineData example_fresh 2 PipelineVariable = Panic IndexOutOfRange
   \<and> Get example_fresh (- 1) [] = Panic IndexOutOfRange
   \<and> Set example_fresh 2 ''k'' Null = (Panic IndexOutOfRange, example_fresh)"
  by (simp add: GetBatchSize_def GetPipelineData_def Get_def Set_def in_range_def example_fresh_def)

text \<open>
  Claim C1 as amended. For a batch index outside \<open>0 \<le> i < batchSize\<close> each of the nine
  operations panics and returns no error; the memory and the bus are left as they
  were. Eight of them panic with an index out of range; \<^verbatim>\<open>Get\<close> parses its path before it
  indexes, so it panics with an index out of range or, for a path that yields no
  bracketed form, with slice bounds out of range.
\<close>

theorem batch_index_out_of_range_panics:
  assumes "batchIdx < 0 \<or> GetBatchSize wfm \<le> batchIdx"
  shows "Set wfm batchIdx key v = (Panic IndexOutOfRange, wfm)
       \<and> (Get wfm batchIdx path = Panic IndexOutOfRange
            \<or> Get wfm batchIdx path = Panic SliceBoundsOutOfRange)
       \<and> InitComponent wfm batchIdx C = (Panic IndexOutOfRange, wfm)
       \<and> SetComponentData tsv e wfm rc batchIdx C dt v = (Panic IndexOutOfRange, wfm, rc)
       \<and> GetComponentData wfm batchIdx C dt = Panic IndexOutOfRange
       \<and> SetComponentStatus e wfm rc batchIdx C st b = (Panic IndexOutOfRange, wfm, rc)
       \<and> GetComponentStatus wfm batchIdx C st = Panic IndexOutOfRange
       \<and> SetPipelineData tsv e wfm rc batchIdx pt v = (Panic IndexOutOfRange, wfm, rc)
       \<and> GetPipelineData wfm batchIdx pt = Panic IndexOutOfRange"
proof -
  from assms have out: "\<not> in_range wfm batchIdx"
    by (auto simp add: in_range_def GetBatchSize_def)
  have "Set wfm batchIdx key v = (Panic IndexOutOfRange, wfm)"
    using out by (simp add: Set_def)
  moreover have "Get wfm batchIdx path = Panic IndexOutOfRange
            \<or> Get wfm batchIdx path = Panic SliceBoundsOutOfRange"
    using out by (simp add: Get_def Let_def)
  moreover have "InitComponent wfm batchIdx C = (Panic IndexOutOfRange, wfm)"
    using out by (simp add: InitComponent_def)
  moreover have "SetComponentData tsv e wfm rc batchIdx C dt v = (Panic IndexOutOfRange, wfm, rc)"
    using out by (simp add: SetComponentData_def)
  moreover have "GetComponentData wfm batchIdx C dt = Panic IndexOutOfRange"
    using out by (simp add: GetComponentData_def)
  moreover have "SetComponentStatus e wfm rc batchIdx C st b = (Panic IndexOutOfRange, wfm, rc)"
    using out by (simp add: SetComponentStatus_def)
  moreover have "GetComponentStatus wfm batchIdx C st = Panic IndexOutOfRange"
    using out by (simp add: GetComponentStatus_def)
  moreover have "SetPipelineData tsv e wfm rc batchIdx pt v = (Panic IndexOutOfRange, wfm, rc)"
    using out by (simp add: SetPipelineData_def)
  moreover have "GetPipelineData wfm batchIdx pt = Panic IndexOutOfRange"
    using out by (simp add: GetPipelineData_def)
  ultimately show ?thesis by blast
qed

theorem batch_index_out_of_range_panics_witness:
  "GetBatchSize example_fresh \<le> 2
   \<and> Set example_fresh 2 ''k'' Null = (Panic IndexOutOfRange, example_fresh)
   \<and> GetComponentStatus example_fresh 2 ''c1'' ComponentStatusStarted = Panic IndexOutOfRange
   \<and> GetPipelineData example_fresh 2 PipelineVariable = Panic IndexOutOfRange"
  using batch_index_out_of_range_panics [of 2 example_fresh "''k''" Null "[]" "''c1''"
          ToStructValue example_env example_redis ComponentDataInput ComponentStatusStarted True
          PipelineVariable]
  by (simp add: GetBatchSize_def example_fresh_def)

section \<open>The path resolver\<close>

text \<open>
  Claim C2 says that \<^verbatim>\<open>Get\<close> never panics on a well-formed path, fails with
  \<open>InvalidPath\<close> where a step applies the wrong kind of access and with \<open>NotFound\<close> for an
  absent key or an index out of range. \<^verbatim>\<open>Get\<close> has no return of an error: it asserts
  \<^verbatim>\<open>ptr.(*data.Array)\<close> and \<^verbatim>\<open>ptr.(*data.Map)\<close> and indexes \<^verbatim>\<open>Values[i]\<close> unchecked. On the
  root \<^verbatim>\<open>{"a": {"b": [{"c": 10}, {"c": 20}]}}\<close> the path \<^verbatim>\<open>a.b[2].c\<close> panics with an
  index out of range, \<^verbatim>\<open>a.b.c\<close> with a failed type assertion, and the absent key of
  \<^verbatim>\<open>a.x\<close> yields nil with a nil error.
\<close>

theorem Get_errors_counterexample:
  "in_range example_nested 0
   \<and> Get example_nested 0 ''a.b[1].c'' = Ok (Number 20)
   \<and> Get example_nested 0 ''a.b[2].c'' = Panic IndexOutOfRange
   \<and> Get example_nested 0 ''a.b.c'' = Panic InterfaceConversion
   \<and> Get example_nested 0 ''a.x'' = Ok GoNil
   \<and> Get example_nested 0 ''a.x.c'' = Panic InterfaceConversion"
  by (simp add: example_nested_def Get_def in_range_def FieldsFunc_def HasSuffix_def Split_def
      Split_from.simps Atoi_def is_digit_def digit_val_def lookup_field_def)

text \<open>
  Claim C2 as amended. For every in-range batch index and every well-formed path,
  \<^verbatim>\<open>Get\<close> returns no error: it resolves the steps of the path in order as \<open>resolve\<close>
  does. It returns the addressed value, nil for an absent key of a map, and panics
  where a step applies the wrong kind of access for the value (also a step after an
  absent key) or an array index is out of range. The empty path returns the root.
\<close>

theorem Get_well_formed_path:
  assumes "in_range wfm i" and "steps \<noteq> []" and "list_all wf_step steps"
  shows "Get wfm i (render steps) = resolve (Data wfm ! nat i) steps
       \<and> (\<forall>m. Get wfm i (render steps) \<noteq> Error m)
       \<and> Get wfm i [] = Ok (Data wfm ! nat i)"
proof -
  have ne: "render steps \<noteq> []" using assms(2,3) by (rule render_nonempty)
  have splits: "FieldsFunc (render steps) (\<lambda>s. s = CHR ''.'' \<or> s = CHR ''['') = map field_of steps"
    using assms(3) by (rule render_fields)
  have newPath: "newPath_loop [] (map field_of steps) = CHR ''['' # joined steps @ '']''"
    using newPath_loop_steps [OF assms(3), of "[]"] concat_pieces_joined [OF assms(2)] by simp
  have ss: "Split (joined steps) '']['' = map token_of steps"
    using Split_joined [OF assms(2,3)] by (simp add: Split_def)
  have "Get wfm i (render steps) = Get_loop (Data wfm ! nat i) (map token_of steps)"
    using ne assms(1) by (simp add: Get_def splits newPath ss)
  also have "\<dots> = resolve (Data wfm ! nat i) steps"
    using assms(3) by (rule Get_loop_tokens)
  finally have eq: "Get wfm i (render steps) = resolve (Data wfm ! nat i) steps" .
  moreover from eq have "\<forall>m. Get wfm i (render steps) \<noteq> Error m"
    by (simp add: resolve_no_error)
  moreover from assms(1) have "Get wfm i [] = Ok (Data wfm ! nat i)"
    by (simp add: Get_def)
  ultimately show ?thesis by blast
qed

theorem Get_well_formed_path_witness:
  "in_range example_nested 0
   \<and> [Key ''a'', Key ''b'', Index 1, Key ''c''] \<noteq> []
   \<and> list_all wf_step [Key ''a'', Key ''b'', Index 1, Key ''c'']
   \<and> render [Key ''a'', Key ''b'', Index 1, Key ''c''] = ''a.b[1].c''
   \<and> Get example_nested 0 ''a.b[1].c'' = Ok (Number 20)"
proof -
  have h1: "in_range example_nested 0"
    by (simp add: example_nested_def in_range_def)
  have h2: "[Key ''a'', Key ''b'', Index 1, Key ''c''] \<noteq> []" by simp
  have h3: "list_all wf_step [Key ''a'', Key ''b'', Index 1, Key ''c'']" by simp
  from Get_well_formed_path [OF h1 h2 h3]
  have "Get example_nested 0 (render [Key ''a'', Key ''b'', Index 1, Key ''c''])
          = resolve (Data example_nested ! nat 0) [Key ''a'', Key ''b'', Index 1, Key ''c'']"
    by blast
  then have "Get example_nested 0 ''a.b[1].c''
          = resolve (Data example_nested ! nat 0) [Key ''a'', Key ''b'', Index 1, Key ''c'']"
    by (simp only: example_render)
  also have "\<dots> = Ok (Number 20)"
    by (simp add: example_nested_def lookup_field_def)
  finally show ?thesis using h1 h2 h3 example_render by blast
qed

section \<open>Snapshot and restore\<close>

text \<open>
  Claim C3. When a registered workflow memory is written with
  \<^verbatim>\<open>WriteWorkflowMemoryToRedis\<close> and read back with \<^verbatim>\<open>LoadWorkflowMemoryFromRedis\<close> (into
  any store \<open>ms'\<close>, Redis accepting the write and the read), both calls succeed, the result is registered under the workflow ID, and \<^verbatim>\<open>GetBatchSize\<close>, \<^verbatim>\<open>Get\<close>,
  \<^verbatim>\<open>GetPipelineData\<close>, \<^verbatim>\<open>GetComponentData\<close> and \<^verbatim>\<open>GetComponentStatus\<close> return on it what
  they return on the original, for every index, path, component and tag. The write
  and the read use the same key \<^verbatim>\<open>pipeline_trigger:{id}\<close>.
\<close>

theorem snapshot_restore_reads:
  assumes "workflows ms workflowID = Some wfm"
    and "set_err e = None" and "get_err e' = None"
  shows "\<exists>rc' wfm' ms''.
           WriteWorkflowMemoryToRedis e ms rc workflowID = (Ok (), rc')
         \<and> LoadWorkflowMemoryFromRedis e' ms' rc' workflowID = (Ok wfm', ms'')
         \<and> workflows ms'' workflowID = Some wfm'
         \<and> GetBatchSize wfm' = GetBatchSize wfm
         \<and> (\<forall>i path. Get wfm' i path = Get wfm i path)
         \<and> (\<forall>i t. GetPipelineData wfm' i t = GetPipelineData wfm i t)
         \<and> (\<forall>i C t. GetComponentData wfm' i C t = GetComponentData wfm i C t)
         \<and> (\<forall>i C t. GetComponentStatus wfm' i C t = GetComponentStatus wfm i C t)"
proof -
  let ?key = "''pipeline_trigger:'' @ workflowID"
  let ?snap = "\<lparr>snap_ID = ID wfm, snap_Data = Data wfm, snap_Recipe = Recipe wfm\<rparr>"
  let ?rc = "rc\<lparr>kv := (kv rc)(?key \<mapsto> Encoded ?snap)\<rparr>"
  let ?wfm = "\<lparr>ID = workflowID, Data = Data wfm, Recipe = Recipe wfm, streaming = False\<rparr>"
  let ?ms = "ms'\<lparr>workflows := (workflows ms')(workflowID \<mapsto> ?wfm)\<rparr>"
  from assms(1,2) have w: "WriteWorkflowMemoryToRedis e ms rc workflowID = (Ok (), ?rc)"
    by (simp add: WriteWorkflowMemoryToRedis_def gob_Encode_workflowMemory_def redis_Set_def)
  from assms(3) have l: "LoadWorkflowMemoryFromRedis e' ms' ?rc workflowID = (Ok ?wfm, ?ms)"
    by (simp add: LoadWorkflowMemoryFromRedis_def gob_Decode_workflowMemory_def redis_Get_def Let_def)
  have reg: "workflows ?ms workflowID = Some ?wfm" by simp
  have d: "Data ?wfm = Data wfm" by simp
  have r: "\<And>i. in_range ?wfm i = in_range wfm i" by (simp add: in_range_def)
  have "GetBatchSize ?wfm = GetBatchSize wfm" by (simp add: GetBatchSize_def)
  moreover have "\<forall>i path. Get ?wfm i path = Get wfm i path"
    unfolding Get_def r d by simp
  moreover have "\<forall>i t. GetPipelineData ?wfm i t = GetPipelineData wfm i t"
    unfolding GetPipelineData_def r d by simp
  moreover have "\<forall>i C t. GetComponentData ?wfm i C t = GetComponentData wfm i C t"
    unfolding GetComponentData_def r d by simp
  moreover have "\<forall>i C t. GetComponentStatus ?wfm i C t = GetComponentStatus wfm i C t"
    unfolding GetComponentStatus_def r d by simp
  ultimately show ?thesis using w l reg by blast
qed

theorem snapshot_restore_reads_witness:
  "workflows \<lparr>workflows = [''w1'' \<mapsto> example_streaming]\<rparr> ''w1'' = Some example_streaming
   \<and> set_err example_env = None \<and> get_err example_env = None
   \<and> (\<exists>rc' wfm' ms''.
         WriteWorkflowMemoryToRedis example_env \<lparr>workflows = [''w1'' \<mapsto> example_streaming]\<rparr>
           example_redis ''w1'' = (Ok (), rc')
       \<and> LoadWorkflowMemoryFromRedis example_env \<lparr>workflows = Map.empty\<rparr> rc' ''w1'' = (Ok wfm', ms'')
       \<and> GetBatchSize wfm' = 2
       \<and> GetComponentStatus wfm' 1 ''c1'' ComponentStatusStarted = Ok False
       \<and> Get wfm' 1 ''c1.status.started'' = Ok (Boolean False))"
proof -
  have s: "GetBatchSize example_streaming = 2"
    by (simp add: GetBatchSize_def example_streaming_eq)
  have g: "GetComponentStatus example_streaming 1 ''c1'' ComponentStatusStarted = Ok False"
    by (simp add: eval_defs)
  have p: "Get example_streaming 1 ''c1.status.started'' = Ok (Boolean False)"
    by (simp add: example_streaming_eq Get_def in_range_def FieldsFunc_def HasSuffix_def Split_def Split_from.simps
        Atoi_def is_digit_def digit_val_def lookup_field_def)
  have h1: "workflows \<lparr>workflows = [''w1'' \<mapsto> example_streaming]\<rparr> ''w1'' = Some example_streaming"
    by simp
  have h2: "set_err example_env = None" and h3: "get_err example_env = None"
    by (simp_all add: example_env_def)
  from snapshot_restore_reads [OF h1 h2 h3, of example_redis "\<lparr>workflows = Map.empty\<rparr>"]
  obtain rc' wfm' ms'' where
    w: "WriteWorkflowMemoryToRedis example_env \<lparr>workflows = [''w1'' \<mapsto> example_streaming]\<rparr>
          example_redis ''w1'' = (Ok (), rc')" and
    l: "LoadWorkflowMemoryFromRedis example_env \<lparr>workflows = Map.empty\<rparr> rc' ''w1'' = (Ok wfm', ms'')" and
    b: "GetBatchSize wfm' = GetBatchSize example_streaming" and
    r1: "\<forall>i path. Get wfm' i path = Get example_streaming i path" and
    r2: "\<forall>i C t. GetComponentStatus wfm' i C t = GetComponentStatus example_streaming i C t"
    by blast
  from b s have "GetBatchSize wfm' = 2" by simp
  moreover from r2 g have "GetComponentStatus wfm' 1 ''c1'' ComponentStatusStarted = Ok False"
    by simp
  moreover from r1 p have "Get wfm' 1 ''c1.status.started'' = Ok (Boolean False)"
    by simp
  ultimately show ?thesis using w l h1 h2 h3 by blast
qed

section \<open>Events of SetPipelineData\<close>

text \<open>
  Claim C4. With streaming enabled, \<^verbatim>\<open>SetPipelineData(i, T, v)\<close> publishes a
  \<^verbatim>\<open>PipelineOutputUpdated\<close> event if and only if \<open>T\<close> is \<^verbatim>\<open>output\<close>; for variable, secret
  and _output no event is published on the bus. The sources fill the event under
  \<^verbatim>\<open>if t == PipelineOutput\<close>, but the encoding and the publish stand after that block
  and run for every tag. On the streaming example memory, setting \<^verbatim>\<open>variable\<close>,
  \<^verbatim>\<open>secret\<close> or \<^verbatim>\<open>_output\<close> each puts one message on the bus, the zero \<^verbatim>\<open>Event{}\<close> whose
  empty tag is none of the event tags of the package and which has no payload;
  setting \<^verbatim>\<open>output\<close> publishes the \<^verbatim>\<open>pipeline_output_updated\<close> event with the projected
  value.
\<close>

theorem SetPipelineData_publishes_zero_event:
  "streaming example_streaming
   \<and> SetPipelineData ToStructValue example_env example_streaming example_redis 0 PipelineVariable
         (Map [(''name'', String ''Ada'')])
     = (Ok (),
        set_root example_streaming 0
          [(''variable'', Map [(''name'', String ''Ada'')]), (''secret'', Map []), (''output'', Map [])],
        \<lparr>kv = Map.empty, published = [(''w1'', Event [] NoData)]\<rparr>)
   \<and> published (snd (snd (SetPipelineData ToStructValue example_env example_streaming
         example_redis 0 PipelineSecret (Map [(''key'', String ''s3cr3t'')]))))
     = [(''w1'', Event [] NoData)]
   \<and> published (snd (snd (SetPipelineData ToStructValue example_env example_streaming
         example_redis 0 PipelineOutputTemplate (Map [(''answer'', String ''template'')]))))
     = [(''w1'', Event [] NoData)]
   \<and> published (snd (snd (SetPipelineData ToStructValue example_env example_streaming
         example_redis 0 PipelineOutput (Map [(''answer'', String ''Ada'')]))))
     = [(''w1'', Event PipelineOutputUpdated
           (PipelineCompletedEventData 0 0 (Some [(''answer'', StringValue ''Ada'')])))]"
  by (simp add: example_streaming_eq SetPipelineData_def in_range_def struct_conversion_def
      protojson_Marshal_def json_Unmarshal_def encode_and_publish_def gob_Encode_def Publish_def
      example_env_def example_redis_def Let_def)

section \<open>The batch index in event payloads\<close>

text \<open>
  Claim C5 says that the payload of a \<^verbatim>\<open>component_input_updated\<close> or
  \<^verbatim>\<open>component_output_updated\<close> event carries the batch index of the mutation.
  \<^verbatim>\<open>SetComponentData\<close> fills UpdateTime, ComponentID and the value and leaves BatchIndex
  at its zero value, whereas \<^verbatim>\<open>SetComponentStatus\<close> sets \<^verbatim>\<open>BatchIndex: batchIdx\<close>. On the
  streaming example memory, \<^verbatim>\<open>SetComponentData(1, "c1", input, {"x": 1})\<close> and
  \<^verbatim>\<open>SetComponentData(1, "c1", output, {"y": 2})\<close> each publish an event whose batch index
  is 0, and \<^verbatim>\<open>SetComponentStatus(1, "c1", started, true)\<close> one whose batch index is 1.
\<close>

theorem SetComponentData_event_batch_index:
  "in_range example_streaming 1
   \<and> SetComponentData ToStructValue example_env example_streaming example_redis 1 ''c1''
         ComponentDataInput (Map [(''x'', Number 1)])
     = (Ok (),
        set_root example_streaming 1
          [(''variable'', Map []), (''secret'', Map []), (''output'', Map []),
           (''c1'', Map [(''input'', Map [(''x'', Number 1)]), (''output'', Map []),
                         (''status'', Map [(''started'', Boolean False),
                                           (''skipped'', Boolean False),
                                           (''completed'', Boolean False)]),
                         (''setup'', Map [])])],
        \<lparr>kv = Map.empty,
         published = [(''w1'', Event ComponentInputUpdated
                         (ComponentInputEventData 0 ''c1'' 0 (Some [(''x'', NumberValue 1)])))]\<rparr>)
   \<and> map (\<lambda>(channel, event). BatchIndex event)
         (published (snd (snd (SetComponentData ToStructValue example_env example_streaming
            example_redis 1 ''c1'' ComponentDataInput (Map [(''x'', Number 1)])))))
     = [Some 0]
   \<and> map (\<lambda>(channel, event). BatchIndex event)
         (published (snd (snd (SetComponentData ToStructValue example_env example_streaming
            example_redis 1 ''c1'' ComponentDataOutput (Map [(''y'', Number 2)])))))
     = [Some 0]
   \<and> published (snd (snd (SetComponentStatus example_env example_streaming example_redis 1 ''c1''
         ComponentStatusStarted True)))
     = [(''w1'', Event ComponentStatusUpdated
           (ComponentStatusEventData 0 ''c1'' 1
              [(''started'', True), (''skipped'', False), (''completed'', False)]))]"
  by (simp add: example_streaming_eq SetComponentData_def SetComponentStatus_def in_range_def
      struct_conversion_def protojson_Marshal_def json_Unmarshal_def encode_and_publish_def
      gob_Encode_def Publish_def example_env_def example_redis_def Let_def lookup_field_def
      NewBoolean_def)

section \<open>The event of SetComponentStatus\<close>

text \<open>
  Claim C6. With streaming enabled, a successful \<^verbatim>\<open>SetComponentStatus(i, C, t, b)\<close>
  publishes exactly one event, tagged \<^verbatim>\<open>component_status_updated\<close>, for component \<open>C\<close>
  and batch index \<open>i\<close>, and the started, skipped and completed flags in its payload are
  the flags \<^verbatim>\<open>GetComponentStatus\<close> reads after the mutation; the flag \<open>t\<close> then reads \<open>b\<close>.
\<close>

theorem SetComponentStatus_event_matches_state:
  assumes "streaming wfm"
    and "SetComponentStatus e wfm rc i C t b = (Ok (), wfm', rc')"
  shows "\<exists>started skipped completed.
           published rc' = published rc @
             [(ID wfm, Event ComponentStatusUpdated (ComponentStatusEventData (now e) C i
                 [(ComponentStatusStarted, started), (ComponentStatusSkipped, skipped),
                  (ComponentStatusCompleted, completed)]))]
         \<and> GetComponentStatus wfm' i C ComponentStatusStarted = Ok started
         \<and> GetComponentStatus wfm' i C ComponentStatusSkipped = Ok skipped
         \<and> GetComponentStatus wfm' i C ComponentStatusCompleted = Ok completed
         \<and> GetComponentStatus wfm' i C t = Ok b"
proof -
  from SetComponentStatus_streaming_OkD [OF assms(2) assms(1)]
  obtain rootFields compFields st started skipped completed where
    rng: "in_range wfm i" and
    st1: "lookup_field (AList.update t (Boolean b) st) ComponentStatusStarted = Boolean started" and
    st2: "lookup_field (AList.update t (Boolean b) st) ComponentStatusSkipped = Boolean skipped" and
    st3: "lookup_field (AList.update t (Boolean b) st) ComponentStatusCompleted = Boolean completed" and
    w: "wfm' = set_root wfm i (AList.update C
          (Map (AList.update ''status'' (Map (AList.update t (Boolean b) st)) compFields)) rootFields)" and
    pub: "rc' = rc\<lparr>published := published rc @
               [(ID wfm, (Event ComponentStatusUpdated (ComponentStatusEventData (now e) C i
                   [(ComponentStatusStarted, started), (ComponentStatusSkipped, skipped),
                    (ComponentStatusCompleted, completed)])))]\<rparr>"
    by blast
  have st4: "lookup_field (AList.update t (Boolean b) st) t = Boolean b" by simp
  from pub have "published rc' = published rc @
             [(ID wfm, Event ComponentStatusUpdated (ComponentStatusEventData (now e) C i
                 [(ComponentStatusStarted, started), (ComponentStatusSkipped, skipped),
                  (ComponentStatusCompleted, completed)]))]"
    by simp
  moreover from rng st1 have "GetComponentStatus wfm' i C ComponentStatusStarted = Ok started"
    unfolding w by (rule GetComponentStatus_after_set)
  moreover from rng st2 have "GetComponentStatus wfm' i C ComponentStatusSkipped = Ok skipped"
    unfolding w by (rule GetComponentStatus_after_set)
  moreover from rng st3 have "GetComponentStatus wfm' i C ComponentStatusCompleted = Ok completed"
    unfolding w by (rule GetComponentStatus_after_set)
  moreover from rng st4 have "GetComponentStatus wfm' i C t = Ok b"
    unfolding w by (rule GetComponentStatus_after_set)
  ultimately show ?thesis by blast
qed

theorem SetComponentStatus_event_matches_state_witness:
  "streaming example_streaming
   \<and> fst (SetComponentStatus example_env example_streaming example_redis 1 ''c1''
            ComponentStatusStarted True) = Ok ()
   \<and> published (snd (snd (SetComponentStatus example_env example_streaming example_redis 1 ''c1''
         ComponentStatusStarted True)))
     = [(''w1'', Event ComponentStatusUpdated
           (ComponentStatusEventData 0 ''c1'' 1
              [(''started'', True), (''skipped'', False), (''completed'', False)]))]
   \<and> GetComponentStatus (fst (snd (SetComponentStatus example_env example_streaming example_redis
         1 ''c1'' ComponentStatusStarted True))) 1 ''c1'' ComponentStatusStarted = Ok True"
  using SetComponentStatus_event_matches_state [of example_streaming example_env example_redis
          1 "''c1''" ComponentStatusStarted True
          "fst (snd (SetComponentStatus example_env example_streaming example_redis 1 ''c1''
                  ComponentStatusStarted True))"
          "snd (snd (SetComponentStatus example_env example_streaming example_redis 1 ''c1''
                  ComponentStatusStarted True))"]
  by (simp add: eval_defs)

section \<open>A failed publish keeps the mutation\<close>

text \<open>
  Claim C7. Let streaming be enabled, the batch index be in range and the event be
  encoded, and let the publish fail with error \<open>m\<close>. Then \<^verbatim>\<open>SetComponentData\<close> (on an
  initialised component, for a value that converts to a dynamic object),
  \<^verbatim>\<open>SetComponentStatus\<close> (on a component whose status map holds the three flags) and
  \<^verbatim>\<open>SetPipelineData\<close> (for a value that converts) each return \<open>m\<close> and publish nothing,
  and leave the memory with the mutation applied: it is exactly the memory of the run
  in which the publish succeeds, and the written value (or status flag) is read back.
\<close>

theorem publish_failure_keeps_mutation:
  assumes "streaming wfm" and "in_range wfm i" and "Data wfm ! nat i = Map rootFields"
    and "encode_err e = None" and "publish_err e = Some m"
  shows "(map_of rootFields C = Some (Map compFields) \<and> struct_conversion tsv e v = Ok d \<longrightarrow>
            (\<exists>wfm'. wfm' = set_root wfm i
                               (AList.update C (Map (AList.update t v compFields)) rootFields)
               \<and> SetComponentData tsv e wfm rc i C t v = (Error m, wfm', rc)
               \<and> (\<exists>rc'. SetComponentData tsv (e\<lparr>publish_err := None\<rparr>) wfm rc i C t v
                            = (Ok (), wfm', rc'))
               \<and> GetComponentData wfm' i C t = Ok v))
       \<and> (map_of rootFields C = Some (Map compFields)
            \<and> lookup_field compFields ''status'' = Map sm
            \<and> lookup_field sm ComponentStatusStarted = Boolean s1
            \<and> lookup_field sm ComponentStatusSkipped = Boolean s2
            \<and> lookup_field sm ComponentStatusCompleted = Boolean s3 \<longrightarrow>
            (\<exists>wfm'. wfm' = set_root wfm i
                               (AList.update C
                                  (Map (AList.update ''status''
                                          (Map (AList.update st (Boolean b) sm)) compFields))
                                  rootFields)
               \<and> SetComponentStatus e wfm rc i C st b = (Error m, wfm', rc)
               \<and> (\<exists>rc'. SetComponentStatus (e\<lparr>publish_err := None\<rparr>) wfm rc i C st b
                            = (Ok (), wfm', rc'))
               \<and> GetComponentStatus wfm' i C st = Ok b))
       \<and> (struct_conversion tsv e pv = Ok pd \<longrightarrow>
            (\<exists>wfm'. wfm' = set_root wfm i (AList.update pt pv rootFields)
               \<and> SetPipelineData tsv e wfm rc i pt pv = (Error m, wfm', rc)
               \<and> (\<exists>rc'. SetPipelineData tsv (e\<lparr>publish_err := None\<rparr>) wfm rc i pt pv
                            = (Ok (), wfm', rc'))
               \<and> GetPipelineData wfm' i pt = Ok pv))"
proof (intro conjI impI)
  let ?e = "e\<lparr>publish_err := None\<rparr>"
  have enc: "encode_err ?e = None" and pub: "publish_err ?e = None"
    using assms(4) by simp_all
  assume "map_of rootFields C = Some (Map compFields) \<and> struct_conversion tsv e v = Ok d"
  then have cmp: "map_of rootFields C = Some (Map compFields)"
    and conv: "struct_conversion tsv e v = Ok d" by simp_all
  from conv have conv': "struct_conversion tsv ?e v = Ok d" by simp
  let ?w = "set_root wfm i (AList.update C (Map (AList.update t v compFields)) rootFields)"
  have "SetComponentData tsv e wfm rc i C t v = (Error m, ?w, rc)"
    using assms(4,5)
    by (simp add: SetComponentData_streaming_eval [OF assms(2,3) cmp conv assms(1)]
        encode_and_publish_publish_fails)
  moreover have "\<exists>rc'. SetComponentData tsv ?e wfm rc i C t v = (Ok (), ?w, rc')"
    by (simp add: SetComponentData_streaming_eval [OF assms(2,3) cmp conv' assms(1)]
        encode_and_publish_succeeds [OF enc pub])
  moreover have "GetComponentData ?w i C t = Ok v"
    using assms(2) by (rule GetComponentData_after_set)
  ultimately show "\<exists>wfm'. wfm' = ?w
               \<and> SetComponentData tsv e wfm rc i C t v = (Error m, wfm', rc)
               \<and> (\<exists>rc'. SetComponentData tsv ?e wfm rc i C t v = (Ok (), wfm', rc'))
               \<and> GetComponentData wfm' i C t = Ok v"
    by blast
next
  let ?e = "e\<lparr>publish_err := None\<rparr>"
  have enc: "encode_err ?e = None" and pub: "publish_err ?e = None"
    using assms(4) by simp_all
  assume "map_of rootFields C = Some (Map compFields)
            \<and> lookup_field compFields ''status'' = Map sm
            \<and> lookup_field sm ComponentStatusStarted = Boolean s1
            \<and> lookup_field sm ComponentStatusSkipped = Boolean s2
            \<and> lookup_field sm ComponentStatusCompleted = Boolean s3"
  then have cmp: "map_of rootFields C = Some (Map compFields)"
    and stm: "lookup_field compFields ''status'' = Map sm"
    and f1: "lookup_field sm ComponentStatusStarted = Boolean s1"
    and f2: "lookup_field sm ComponentStatusSkipped = Boolean s2"
    and f3: "lookup_field sm ComponentStatusCompleted = Boolean s3" by simp_all
  let ?sm = "AList.update st (Boolean b) sm"
  from f1 have g1: "lookup_field ?sm ComponentStatusStarted
                      = Boolean (if ComponentStatusStarted = st then b else s1)" by simp
  from f2 have g2: "lookup_field ?sm ComponentStatusSkipped
                      = Boolean (if ComponentStatusSkipped = st then b else s2)" by simp
  from f3 have g3: "lookup_field ?sm ComponentStatusCompleted
                      = Boolean (if ComponentStatusCompleted = st then b else s3)" by simp
  let ?w = "set_root wfm i
              (AList.update C (Map (AList.update ''status'' (Map ?sm) compFields)) rootFields)"
  have "SetComponentStatus e wfm rc i C st b = (Error m, ?w, rc)"
    using assms(4,5)
    by (simp add: SetComponentStatus_streaming_eval [OF assms(2,3) cmp stm g1 g2 g3 assms(1)]
        encode_and_publish_publish_fails)
  moreover have "\<exists>rc'. SetComponentStatus ?e wfm rc i C st b = (Ok (), ?w, rc')"
    by (simp add: SetComponentStatus_streaming_eval [OF assms(2,3) cmp stm g1 g2 g3 assms(1)]
        encode_and_publish_succeeds [OF enc pub])
  moreover have "lookup_field ?sm st = Boolean b" by simp
  with assms(2) have "GetComponentStatus ?w i C st = Ok b"
    by (rule GetComponentStatus_after_set)
  ultimately show "\<exists>wfm'. wfm' = ?w
               \<and> SetComponentStatus e wfm rc i C st b = (Error m, wfm', rc)
               \<and> (\<exists>rc'. SetComponentStatus ?e wfm rc i C st b = (Ok (), wfm', rc'))
               \<and> GetComponentStatus wfm' i C st = Ok b"
    by blast
next
  let ?e = "e\<lparr>publish_err := None\<rparr>"
  have enc: "encode_err ?e = None" and pub: "publish_err ?e = None"
    using assms(4) by simp_all
  assume conv: "struct_conversion tsv e pv = Ok pd"
  then have conv': "struct_conversion tsv ?e pv = Ok pd" by simp
  let ?w = "set_root wfm i (AList.update pt pv rootFields)"
  have "SetPipelineData tsv e wfm rc i pt pv = (Error m, ?w, rc)"
    using assms(4,5)
    by (simp add: SetPipelineData_streaming_eval [OF assms(2,3) conv assms(1)]
        encode_and_publish_publish_fails)
  moreover have "\<exists>rc'. SetPipelineData tsv ?e wfm rc i pt pv = (Ok (), ?w, rc')"
    by (simp add: SetPipelineData_streaming_eval [OF assms(2,3) conv' assms(1)]
        encode_and_publish_succeeds [OF enc pub])
  moreover have "GetPipelineData ?w i pt = Ok pv"
    using assms(2) by (rule GetPipelineData_after_set)
  ultimately show "\<exists>wfm'. wfm' = ?w
               \<and> SetPipelineData tsv e wfm rc i pt pv = (Error m, wfm', rc)
               \<and> (\<exists>rc'. SetPipelineData tsv ?e wfm rc i pt pv = (Ok (), wfm', rc'))
               \<and> GetPipelineData wfm' i pt = Ok pv"
    by blast
qed

theorem publish_failure_keeps_mutation_witness:
  "streaming example_streaming \<and> in_range example_streaming 1
   \<and> encode_err (example_env\<lparr>publish_err := Some ''connection refused''\<rparr>) = None
   \<and> publish_err (example_env\<lparr>publish_err := Some ''connection refused''\<rparr>)
       = Some ''connection refused''
   \<and> SetComponentData ToStructValue (example_env\<lparr>publish_err := Some ''connection refused''\<rparr>)
         example_streaming example_redis 1 ''c1'' ComponentDataInput (Map [(''x'', Number 1)])
     = (Error ''connection refused'',
        fst (snd (SetComponentData ToStructValue example_env example_streaming example_redis 1 ''c1''
            ComponentDataInput (Map [(''x'', Number 1)]))),
        example_redis)
   \<and> GetComponentData
        (fst (snd (SetComponentData ToStructValue
            (example_env\<lparr>publish_err := Some ''connection refused''\<rparr>)
            example_streaming example_redis 1 ''c1'' ComponentDataInput (Map [(''x'', Number 1)]))))
        1 ''c1'' ComponentDataInput = Ok (Map [(''x'', Number 1)])
   \<and> SetComponentStatus (example_env\<lparr>publish_err := Some ''connection refused''\<rparr>)
         example_streaming example_redis 1 ''c1'' ComponentStatusStarted True
     = (Error ''connection refused'',
        fst (snd (SetComponentStatus example_env example_streaming example_redis 1 ''c1''
            ComponentStatusStarted True)),
        example_redis)
   \<and> GetComponentStatus
        (fst (snd (SetComponentStatus (example_env\<lparr>publish_err := Some ''connection refused''\<rparr>)
            example_streaming example_redis 1 ''c1'' ComponentStatusStarted True)))
        1 ''c1'' ComponentStatusStarted = Ok True
   \<and> SetPipelineData ToStructValue (example_env\<lparr>publish_err := Some ''connection refused''\<rparr>)
         example_streaming example_redis 1 PipelineOutput (Map [(''answer'', String ''Ada'')])
     = (Error ''connection refused'',
        fst (snd (SetPipelineData ToStructValue example_env example_streaming example_redis 1
            PipelineOutput (Map [(''answer'', String ''Ada'')]))),
        example_redis)
   \<and> GetPipelineData
        (fst (snd (SetPipelineData ToStructValue
            (example_env\<lparr>publish_err := Some ''connection refused''\<rparr>)
            example_streaming example_redis 1 PipelineOutput (Map [(''answer'', String ''Ada'')]))))
        1 PipelineOutput = Ok (Map [(''answer'', String ''Ada'')])"
  using publish_failure_keeps_mutation
    [where wfm = example_streaming and i = 1
       and rootFields = "[(''variable'', Map []), (''secret'', Map []), (''output'', Map []),
              (''c1'', Map [(''input'', Map []), (''output'', Map []),
                            (''status'', Map [(''started'', Boolean False),
                                              (''skipped'', Boolean False),
                                              (''completed'', Boolean False)]),
                            (''setup'', Map [])])]"
       and e = "example_env\<lparr>publish_err := Some ''connection refused''\<rparr>"
       and m = "''connection refused''" and C = "''c1''"
       and compFields = "[(''input'', Map []), (''output'', Map []),
                          (''status'', Map [(''started'', Boolean False),
                                            (''skipped'', Boolean False),
                                            (''completed'', Boolean False)]),
                          (''setup'', Map [])]"
       and tsv = ToStructValue and v = "Map [(''x'', Number 1)]"
       and d = "Some [(''x'', NumberValue 1)]" and t = ComponentDataInput and rc = example_redis
       and sm = "[(''started'', Boolean False), (''skipped'', Boolean False),
                  (''completed'', Boolean False)]"
       and ?s1.0 = False and ?s2.0 = False and ?s3.0 = False
       and st = ComponentStatusStarted and b = True
       and pv = "Map [(''answer'', String ''Ada'')]"
       and pd = "Some [(''answer'', StringValue ''Ada'')]" and pt = PipelineOutput]
  by (simp add: eval_defs)

section \<open>Null under the structural projection\<close>

text \<open>
  Claim C8 says that the projection of every \<open>Map\<close> omits the keys whose value is
  \<open>Null\<close>. The second body of \<^verbatim>\<open>Map.ToStructValue\<close> in the sources (pointer receiver)
  has no case for \<^verbatim>\<open>*Null\<close>: it keeps the key, with the null literal, as it does for a
  nil field.
\<close>

theorem ToStructValue_ptr_keeps_null_counterexample:
  "ToStructValue_ptr (Map [(''a'', Null), (''b'', Number 1)])
     = Ok (StructValue [(''a'', NullValue), (''b'', NumberValue 1)])
   \<and> ToStructValue_ptr (Map [(''a'', GoNil), (''b'', Number 1)])
     = Ok (StructValue [(''a'', NullValue), (''b'', NumberValue 1)])"
  by simp

text \<open>
  Claim C8 as amended, for a map whose keys are distinct (as the keys of a Go map
  are). The first body of \<^verbatim>\<open>Map.ToStructValue\<close> (value receiver) yields an object whose
  keys are the keys of the fields that are neither nil nor \<open>Null\<close>: a key whose value
  is \<open>Null\<close> or nil is omitted. The second body (pointer receiver) yields an object
  with every key of the map, and a key whose value is \<open>Null\<close> or nil has the null
  literal. Each body returns its object whenever the projections of the fields it
  projects succeed. Under both, the projection of an \<open>Array\<close> is a list of the same
  length that has the null literal at every index where the array has \<open>Null\<close>.
\<close>

theorem ToStructValue_null_fields:
  assumes "distinct (map fst fs)"
  shows "(\<forall>s. ToStructValue (Map fs) = Ok s \<longrightarrow>
            (\<exists>mp. s = StructValue mp
               \<and> map fst mp = map fst (filter (\<lambda>(k, v). v \<noteq> GoNil \<and> v \<noteq> Null) fs)
               \<and> (\<forall>k. map_of fs k = Some Null \<or> map_of fs k = Some GoNil
                     \<longrightarrow> map_of mp k = None)))
       \<and> ((\<forall>k v. (k, v) \<in> set fs \<longrightarrow> v = GoNil \<or> v = Null \<or> (\<exists>s. ToStructValue v = Ok s))
            \<longrightarrow> (\<exists>s. ToStructValue (Map fs) = Ok s))
       \<and> (\<forall>s. ToStructValue_ptr (Map fs) = Ok s \<longrightarrow>
            (\<exists>mp. s = StructValue mp
               \<and> map fst mp = map fst fs
               \<and> (\<forall>k. map_of fs k = Some Null \<or> map_of fs k = Some GoNil
                     \<longrightarrow> map_of mp k = Some NullValue)))
       \<and> ((\<forall>k v. (k, v) \<in> set fs \<longrightarrow> v = GoNil \<or> (\<exists>s. ToStructValue_ptr v = Ok s))
            \<longrightarrow> (\<exists>s. ToStructValue_ptr (Map fs) = Ok s))
       \<and> (\<forall>vs s. ToStructValue (Array vs) = Ok s \<longrightarrow>
            (\<exists>ss. s = ListValue ss \<and> length ss = length vs
               \<and> (\<forall>j<length vs. vs ! j = Null \<longrightarrow> ss ! j = NullValue)))
       \<and> (\<forall>vs s. ToStructValue_ptr (Array vs) = Ok s \<longrightarrow>
            (\<exists>ss. s = ListValue ss \<and> length ss = length vs
               \<and> (\<forall>j<length vs. vs ! j = Null \<longrightarrow> ss ! j = NullValue)))"
proof (intro conjI allI impI)
  fix s assume "ToStructValue (Map fs) = Ok s"
  then obtain mp where r: "Map_range fs = Ok mp" and s: "s = StructValue mp"
    by (auto split: outcome.splits)
  note keys = Map_range_keys [OF r]
  have "\<forall>k. map_of fs k = Some Null \<or> map_of fs k = Some GoNil \<longrightarrow> map_of mp k = None"
  proof (intro allI impI)
    fix k assume k: "map_of fs k = Some Null \<or> map_of fs k = Some GoNil"
    have "k \<notin> set (map fst mp)"
    proof
      assume "k \<in> set (map fst mp)"
      with keys obtain v where "(k, v) \<in> set fs" and "v \<noteq> GoNil" and "v \<noteq> Null"
        by auto
      with assms k show False by auto
    qed
    then show "map_of mp k = None" by (simp add: map_of_eq_None_iff)
  qed
  with s keys
  show "\<exists>mp. s = StructValue mp
          \<and> map fst mp = map fst (filter (\<lambda>(k, v). v \<noteq> GoNil \<and> v \<noteq> Null) fs)
          \<and> (\<forall>k. map_of fs k = Some Null \<or> map_of fs k = Some GoNil \<longrightarrow> map_of mp k = None)"
    by blast
next
  assume "\<forall>k v. (k, v) \<in> set fs \<longrightarrow> v = GoNil \<or> v = Null \<or> (\<exists>s. ToStructValue v = Ok s)"
  then have "\<exists>mp. Map_range fs = Ok mp" by (intro Map_range_succeeds) blast
  then show "\<exists>s. ToStructValue (Map fs) = Ok s" by auto
next
  fix s assume "ToStructValue_ptr (Map fs) = Ok s"
  then obtain mp where r: "Map_range_ptr fs = Ok mp" and s: "s = StructValue mp"
    by (auto split: outcome.splits)
  note keys = Map_range_ptr_keys [OF r]
  from assms keys have d: "distinct (map fst mp)" by simp
  have "\<forall>k. map_of fs k = Some Null \<or> map_of fs k = Some GoNil \<longrightarrow> map_of mp k = Some NullValue"
  proof (intro allI impI)
    fix k assume "map_of fs k = Some Null \<or> map_of fs k = Some GoNil"
    with assms have "(k, Null) \<in> set fs \<or> (k, GoNil) \<in> set fs" by auto
    with Map_range_ptr_Null [OF r] Map_range_ptr_GoNil [OF r]
    have "(k, NullValue) \<in> set mp" by blast
    with d show "map_of mp k = Some NullValue" by simp
  qed
  with s keys
  show "\<exists>mp. s = StructValue mp \<and> map fst mp = map fst fs
          \<and> (\<forall>k. map_of fs k = Some Null \<or> map_of fs k = Some GoNil
                \<longrightarrow> map_of mp k = Some NullValue)"
    by blast
next
  assume "\<forall>k v. (k, v) \<in> set fs \<longrightarrow> v = GoNil \<or> (\<exists>s. ToStructValue_ptr v = Ok s)"
  then have "\<exists>mp. Map_range_ptr fs = Ok mp" by (intro Map_range_ptr_succeeds) blast
  then show "\<exists>s. ToStructValue_ptr (Map fs) = Ok s" by auto
next
  fix vs s assume "ToStructValue (Array vs) = Ok s"
  then obtain ss where r: "Array_range vs = Ok ss" and s: "s = ListValue ss"
    by (auto split: outcome.splits)
  from Array_range_Null [OF r] s
  show "\<exists>ss. s = ListValue ss \<and> length ss = length vs
               \<and> (\<forall>j<length vs. vs ! j = Null \<longrightarrow> ss ! j = NullValue)" by blast
next
  fix vs s assume "ToStructValue_ptr (Array vs) = Ok s"
  then obtain ss where r: "Array_range_ptr vs = Ok ss" and s: "s = ListValue ss"
    by (auto split: outcome.splits)
  from Array_range_ptr_Null [OF r] s
  show "\<exists>ss. s = ListValue ss \<and> length ss = length vs
               \<and> (\<forall>j<length vs. vs ! j = Null \<longrightarrow> ss ! j = NullValue)" by blast
qed

theorem ToStructValue_null_fields_witness:
  "distinct (map fst [(''a'', Null), (''n'', GoNil), (''b'', Array [Number 1, Null])])
   \<and> map_of [(''a'', Null), (''n'', GoNil), (''b'', Array [Number 1, Null])] ''a'' = Some Null
   \<and> map_of [(''a'', Null), (''n'', GoNil), (''b'', Array [Number 1, Null])] ''n'' = Some GoNil
   \<and> ToStructValue (Map [(''a'', Null), (''n'', GoNil), (''b'', Array [Number 1, Null])])
       = Ok (StructValue [(''b'', ListValue [NumberValue 1, NullValue])])
   \<and> map_of [(''b'', ListValue [NumberValue 1, NullValue])] ''a'' = None
   \<and> map_of [(''b'', ListValue [NumberValue 1, NullValue])] ''n'' = None
   \<and> ToStructValue_ptr (Map [(''a'', Null), (''n'', GoNil), (''b'', Array [Number 1, Null])])
       = Ok (StructValue [(''a'', NullValue), (''n'', NullValue),
                          (''b'', ListValue [NumberValue 1, NullValue])])"
  using ToStructValue_null_fields
          [of "[(''a'', Null), (''n'', GoNil), (''b'', Array [Number 1, Null])]"]
  by simp

section \<open>A fresh workflow memory\<close>

text \<open>
  Claim C9. For every workflow made by \<^verbatim>\<open>NewWorkflowMemory(id, recipe, batchSize)\<close> and
  every batch index \<open>0 \<le> i < batchSize\<close>, \<^verbatim>\<open>GetPipelineData(i, t)\<close> for \<open>t\<close> one of
  variable, secret and output succeeds and returns an empty map before any mutation.
  The creation itself succeeds and the memory has \<open>batchSize\<close> roots.
\<close>

theorem NewWorkflowMemory_pipeline_data_empty:
  assumes "0 \<le> i" and "i < batchSize"
    and "t = PipelineVariable \<or> t = PipelineSecret \<or> t = PipelineOutput"
  shows "\<exists>wfm ms'. NewWorkflowMemory ms workflowID r batchSize = (Ok wfm, ms')
           \<and> GetBatchSize wfm = batchSize
           \<and> GetPipelineData wfm i t = Ok (Map [])"
proof -
  let ?root = "Map [(PipelineVariable, Map []), (PipelineSecret, Map []), (PipelineOutput, Map [])]"
  let ?wfm = "\<lparr>ID = workflowID, Data = replicate (nat batchSize) ?root, Recipe = r, streaming = False\<rparr>"
  let ?ms = "ms\<lparr>workflows := (workflows ms)(workflowID \<mapsto> ?wfm)\<rparr>"
  from assms have new: "NewWorkflowMemory ms workflowID r batchSize = (Ok ?wfm, ?ms)"
    by (simp add: NewWorkflowMemory_def NewMap_def Let_def)
  from assms have size: "GetBatchSize ?wfm = batchSize"
    by (simp add: GetBatchSize_def)
  from assms have idx: "in_range ?wfm i" and root: "Data ?wfm ! nat i = ?root"
    by (simp_all add: in_range_def)
  from assms(3) idx root have "GetPipelineData ?wfm i t = Ok (Map [])"
    by (auto simp add: GetPipelineData_def)
  with new size show ?thesis by blast
qed

theorem NewWorkflowMemory_pipeline_data_empty_witness:
  "(0::int) \<le> 1 \<and> (1::int) < 2
   \<and> (\<exists>wfm ms'. NewWorkflowMemory \<lparr>workflows = Map.empty\<rparr> ''w1'' None 2 = (Ok wfm, ms')
         \<and> GetBatchSize wfm = 2
         \<and> GetPipelineData wfm 1 PipelineSecret = Ok (Map []))"
  using NewWorkflowMemory_pipeline_data_empty [of 1 2 PipelineSecret "\<lparr>workflows = Map.empty\<rparr>" "''w1''" None]
  by simp

section \<open>Reading a component slot that was never written\<close>

text \<open>
  Claim C10. For an in-range batch index \<open>i\<close> and an initialised component \<open>C\<close>,
  \<^verbatim>\<open>GetComponentData(i, C, t)\<close> for a slot \<open>t\<close> that was never written returns the nil
  value together with a nil error, not an error: so for \<^verbatim>\<open>element\<close> right after
  \<^verbatim>\<open>InitComponent\<close>, and so for every component map that has no key \<open>t\<close>.
\<close>

theorem GetComponentData_unwritten_slot:
  assumes "in_range wfm i" and "Data wfm ! nat i = Map rootFields"
  shows "GetComponentData (snd (InitComponent wfm i C)) i C ComponentDataElement = Ok GoNil
       \<and> (\<forall>compFields t. map_of rootFields C = Some (Map compFields) \<and> map_of compFields t = None
             \<longrightarrow> GetComponentData wfm i C t = Ok GoNil)"
proof
  from assms show "GetComponentData (snd (InitComponent wfm i C)) i C ComponentDataElement = Ok GoNil"
    by (simp add: InitComponent_def GetComponentData_def NewMap_def NewBoolean_def update_conv'
        lookup_field_def SegInput_def SegOutput_def)
next
  from assms show "\<forall>compFields t. map_of rootFields C = Some (Map compFields) \<and> map_of compFields t = None
             \<longrightarrow> GetComponentData wfm i C t = Ok GoNil"
    by (simp add: GetComponentData_def lookup_field_def)
qed

theorem GetComponentData_unwritten_slot_witness:
  "in_range example_fresh 1
   \<and> Data example_fresh ! nat 1
       = Map [(''variable'', Map []), (''secret'', Map []), (''output'', Map [])]
   \<and> GetComponentData (snd (InitComponent example_fresh 1 ''c1'')) 1 ''c1'' ComponentDataElement
       = Ok GoNil"
  using GetComponentData_unwritten_slot
          [of example_fresh 1 "[(''variable'', Map []), (''secret'', Map []), (''output'', Map [])]"
              "''c1''"]
  by (simp add: in_range_def example_fresh_def)

end
